theory Spec2Isabelle
  imports Complex_Main "HOL-Library.Word" "HOL-Library.Sublist" "HOL-Library.Multiset"
begin

section \<open>Strings, errors and the exception discipline\<close>

text \<open>
  A JavaScript string is a sequence of 16-bit code units. The response text of the model,
  the pattern match on it and the JSON parser all work on code units, so a string is a
  list of 16-bit words; \<open>js\<close> writes a literal.
\<close>

type_synonym code_unit = "16 word"

type_synonym jsstring = "code_unit list"

definition js :: "string \<Rightarrow> jsstring" where
  "js s = map of_char s"

text \<open>
  What a \<open>throw\<close> (or a rejected promise) carries. \<open>ServiceError\<close> stands for whatever
  the external client raises (network failure, quota, a blocked response whose
  \<open>text()\<close> throws); \<open>Error\<close> is \<open>new Error(message)\<close>; the other three are the
  runtime's own.
\<close>

datatype error =
    ServiceError jsstring
  | Error jsstring
  | SyntaxError
  | RangeError
  | TypeError

text \<open>
  A computation that may throw returns \<open>Inl e\<close> for \<open>throw e\<close> and \<open>Inr v\<close> for a normal
  result. \<open>try { body } catch (error) { handler }\<close>:
\<close>

definition try_catch :: "error + 'a \<Rightarrow> (error \<Rightarrow> error + 'a) \<Rightarrow> error + 'a" where
  "try_catch body handler = (case body of Inl e \<Rightarrow> handler e | Inr v \<Rightarrow> Inr v)"

section \<open>JSON values and \<open>JSON.parse\<close>\<close>

text \<open>
  \<open>JSON.parse\<close> is the runtime's primitive; it is modelled on the JSON grammar
  (ECMA-404) that the language standard prescribes for it. A number keeps its lexeme
  (its value as a double is not needed here); an object keeps its members in source
  order, and \<open>get_prop\<close> reads a property the way the resulting object answers: the
  last member of that name wins.
\<close>

datatype json =
    JNull
  | JBool bool
  | JNumber jsstring
  | JString jsstring
  | JArray "json list"
  | JObject "(jsstring \<times> json) list"

definition get_prop :: "json \<Rightarrow> jsstring \<Rightarrow> json option" where
  "get_prop v k = (case v of JObject ms \<Rightarrow> map_of (rev ms) k | _ \<Rightarrow> None)"

definition is_ws :: "code_unit \<Rightarrow> bool" where
  "is_ws c = (c = 0x20 \<or> c = 0x09 \<or> c = 0x0A \<or> c = 0x0D)"

definition skip_ws :: "jsstring \<Rightarrow> jsstring" where
  "skip_ws cs = dropWhile is_ws cs"

definition is_digit :: "code_unit \<Rightarrow> bool" where
  "is_digit c = (0x30 \<le> c \<and> c \<le> 0x39)"

definition hex_digit :: "code_unit \<Rightarrow> code_unit option" where
  "hex_digit c =
     (if 0x30 \<le> c \<and> c \<le> 0x39 then Some (c - 0x30)
      else if 0x41 \<le> c \<and> c \<le> 0x46 then Some (c - 0x41 + 10)
      else if 0x61 \<le> c \<and> c \<le> 0x66 then Some (c - 0x61 + 10)
      else None)"

text \<open>The four hex digits of a \<open>\uXXXX\<close> escape name one code unit.\<close>

definition hex4 :: "code_unit \<Rightarrow> code_unit \<Rightarrow> code_unit \<Rightarrow> code_unit \<Rightarrow> code_unit option" where
  "hex4 a b c d =
     (case (hex_digit a, hex_digit b, hex_digit c, hex_digit d) of
        (Some x, Some y, Some z, Some w) \<Rightarrow> Some (x * 0x1000 + y * 0x100 + z * 0x10 + w)
      | _ \<Rightarrow> None)"

text \<open>The single-character escapes: quote, backslash, slash, b, f, n, r, t.\<close>

definition escape :: "code_unit \<Rightarrow> code_unit option" where
  "escape e =
     (if e = 0x22 then Some 0x22
      else if e = 0x5C then Some 0x5C
      else if e = 0x2F then Some 0x2F
      else if e = 0x62 then Some 0x08
      else if e = 0x66 then Some 0x0C
      else if e = 0x6E then Some 0x0A
      else if e = 0x72 then Some 0x0D
      else if e = 0x74 then Some 0x09
      else None)"

definition cons_result :: "code_unit \<Rightarrow> (jsstring \<times> jsstring) option \<Rightarrow> (jsstring \<times> jsstring) option" where
  "cons_result c r = (case r of None \<Rightarrow> None | Some (s, rest) \<Rightarrow> Some (c # s, rest))"

text \<open>
  The characters of a string literal, after its opening quote: up to the closing quote,
  with escapes decoded; a raw control character (below U+0020) is an error. The result is
  the decoded string and the text after the closing quote.
\<close>

fun parse_string :: "jsstring \<Rightarrow> (jsstring \<times> jsstring) option" where
  "parse_string [] = None"
| "parse_string (c # cs) =
     (if c = 0x22 then Some ([], cs)
      else if c = 0x5C then
        (case cs of
           [] \<Rightarrow> None
         | e # cs' \<Rightarrow>
             if e = 0x75 then
               (case cs' of
                  h1 # h2 # h3 # h4 # cs'' \<Rightarrow>
                    (case hex4 h1 h2 h3 h4 of
                       None \<Rightarrow> None
                     | Some u \<Rightarrow> cons_result u (parse_string cs''))
                | _ \<Rightarrow> None)
             else
               (case escape e of
                  None \<Rightarrow> None
                | Some d \<Rightarrow> cons_result d (parse_string cs')))
      else if c < 0x20 then None
      else cons_result c (parse_string cs))"

text \<open>
  A number: optional minus, then \<open>0\<close> or a non-zero digit and more digits, then an
  optional fraction (a point and at least one digit) and an optional exponent (\<open>e\<close> or
  \<open>E\<close>, an optional sign, at least one digit). The result is the lexeme and the rest. A
  point or an exponent mark that no digit follows fails here: no token can follow a number
  that starts with either.
\<close>

definition parse_digits1 :: "jsstring \<Rightarrow> (jsstring \<times> jsstring) option" where
  "parse_digits1 cs =
     (if takeWhile is_digit cs = [] then None
      else Some (takeWhile is_digit cs, dropWhile is_digit cs))"

definition parse_int_part :: "jsstring \<Rightarrow> (jsstring \<times> jsstring) option" where
  "parse_int_part cs =
     (case cs of
        [] \<Rightarrow> None
      | d # r \<Rightarrow>
          if d = 0x30 then Some ([d], r)
          else if is_digit d then Some (d # takeWhile is_digit r, dropWhile is_digit r)
          else None)"

definition parse_frac :: "jsstring \<Rightarrow> (jsstring \<times> jsstring) option" where
  "parse_frac cs =
     (case cs of
        [] \<Rightarrow> Some ([], [])
      | p # r \<Rightarrow>
          if p = 0x2E then
            (case parse_digits1 r of None \<Rightarrow> None | Some (ds, r') \<Rightarrow> Some (p # ds, r'))
          else Some ([], cs))"

definition parse_exp :: "jsstring \<Rightarrow> (jsstring \<times> jsstring) option" where
  "parse_exp cs =
     (case cs of
        [] \<Rightarrow> Some ([], [])
      | e # r \<Rightarrow>
          if e = 0x65 \<or> e = 0x45 then
            (case r of
               [] \<Rightarrow> None
             | s # r' \<Rightarrow>
                 if s = 0x2B \<or> s = 0x2D then
                   (case parse_digits1 r' of
                      None \<Rightarrow> None
                    | Some (ds, r'') \<Rightarrow> Some (e # s # ds, r''))
                 else
                   (case parse_digits1 r of
                      None \<Rightarrow> None
                    | Some (ds, r'') \<Rightarrow> Some (e # ds, r'')))
          else Some ([], cs))"

definition parse_unsigned :: "jsstring \<Rightarrow> (jsstring \<times> jsstring) option" where
  "parse_unsigned cs =
     (case parse_int_part cs of
        None \<Rightarrow> None
      | Some (i, r1) \<Rightarrow>
          (case parse_frac r1 of
             None \<Rightarrow> None
           | Some (f, r2) \<Rightarrow>
               (case parse_exp r2 of
                  None \<Rightarrow> None
                | Some (x, r3) \<Rightarrow> Some (i @ f @ x, r3))))"

definition parse_number :: "jsstring \<Rightarrow> (jsstring \<times> jsstring) option" where
  "parse_number cs =
     (case cs of
        [] \<Rightarrow> None
      | c # r \<Rightarrow>
          if c = 0x2D then
            (case parse_unsigned r of None \<Rightarrow> None | Some (n, r') \<Rightarrow> Some (c # n, r'))
          else parse_unsigned cs)"

text \<open>A keyword (\<open>true\<close>, \<open>false\<close>, \<open>null\<close>) at the head of the text.\<close>

definition parse_literal :: "string \<Rightarrow> jsstring \<Rightarrow> jsstring option" where
  "parse_literal w cs =
     (if take (length w) cs = js w then Some (drop (length w) cs) else None)"

datatype 'a result = Parsed 'a jsstring | Failed | OutOfFuel

text \<open>
  A value that is not an array or an object, at the head of the text: a string, a number
  or a keyword, told apart by the first character.
\<close>

definition parse_scalar :: "jsstring \<Rightarrow> json result" where
  "parse_scalar cs =
     (case cs of
        [] \<Rightarrow> Failed
      | c # r \<Rightarrow>
          if c = 0x22 then
            (case parse_string r of
               None \<Rightarrow> Failed
             | Some (s, rest) \<Rightarrow> Parsed (JString s) rest)
          else if c = 0x2D \<or> is_digit c then
            (case parse_number cs of
               None \<Rightarrow> Failed
             | Some (n, rest) \<Rightarrow> Parsed (JNumber n) rest)
          else
            (case parse_literal ''true'' cs of
               Some rest \<Rightarrow> Parsed (JBool True) rest
             | None \<Rightarrow>
                 (case parse_literal ''false'' cs of
                    Some rest \<Rightarrow> Parsed (JBool False) rest
                  | None \<Rightarrow>
                      (case parse_literal ''null'' cs of
                         Some rest \<Rightarrow> Parsed JNull rest
                       | None \<Rightarrow> Failed))))"

text \<open>
  The recursive part. The parser is recursive descent with fuel: every call that goes
  one level down or one element on spends one unit, and \<open>OutOfFuel\<close> is kept apart from
  \<open>Failed\<close> (a syntax error), so that the fuel \<open>JSON_parse\<close> gives can be shown to be
  enough for every text. \<open>parse_elements\<close> reads the elements of a non-empty array up to
  its closing bracket, \<open>parse_members\<close> the members of a non-empty object up to its
  closing brace.
\<close>

fun parse_value :: "nat \<Rightarrow> jsstring \<Rightarrow> json result"
  and parse_elements :: "nat \<Rightarrow> jsstring \<Rightarrow> (json list) result"
  and parse_members :: "nat \<Rightarrow> jsstring \<Rightarrow> ((jsstring \<times> json) list) result"
where
  "parse_value 0 cs = OutOfFuel"
| "parse_value (Suc n) cs =
     (case skip_ws cs of
        [] \<Rightarrow> Failed
      | c # r \<Rightarrow>
          if c = 0x5B then
            (case skip_ws r of
               [] \<Rightarrow> Failed
             | c' # r' \<Rightarrow>
                 if c' = 0x5D then Parsed (JArray []) r'
                 else
                   (case parse_elements n r of
                      Parsed vs rest \<Rightarrow> Parsed (JArray vs) rest
                    | Failed \<Rightarrow> Failed
                    | OutOfFuel \<Rightarrow> OutOfFuel))
          else if c = 0x7B then
            (case skip_ws r of
               [] \<Rightarrow> Failed
             | c' # r' \<Rightarrow>
                 if c' = 0x7D then Parsed (JObject []) r'
                 else
                   (case parse_members n r of
                      Parsed ms rest \<Rightarrow> Parsed (JObject ms) rest
                    | Failed \<Rightarrow> Failed
                    | OutOfFuel \<Rightarrow> OutOfFuel))
          else parse_scalar (c # r))"
| "parse_elements 0 cs = OutOfFuel"
| "parse_elements (Suc n) cs =
     (case parse_value n cs of
        Failed \<Rightarrow> Failed
      | OutOfFuel \<Rightarrow> OutOfFuel
      | Parsed v r \<Rightarrow>
          (case skip_ws r of
             [] \<Rightarrow> Failed
           | c # r' \<Rightarrow>
               if c = 0x2C then
                 (case parse_elements n r' of
                    Parsed vs rest \<Rightarrow> Parsed (v # vs) rest
                  | Failed \<Rightarrow> Failed
                  | OutOfFuel \<Rightarrow> OutOfFuel)
               else if c = 0x5D then Parsed [v] r'
               else Failed))"
| "parse_members 0 cs = OutOfFuel"
| "parse_members (Suc n) cs =
     (case skip_ws cs of
        [] \<Rightarrow> Failed
      | q # r \<Rightarrow>
          if q = 0x22 then
            (case parse_string r of
               None \<Rightarrow> Failed
             | Some (k, r1) \<Rightarrow>
                 (case skip_ws r1 of
                    [] \<Rightarrow> Failed
                  | colon # r2 \<Rightarrow>
                      if colon = 0x3A then
                        (case parse_value n r2 of
                           Failed \<Rightarrow> Failed
                         | OutOfFuel \<Rightarrow> OutOfFuel
                         | Parsed v r3 \<Rightarrow>
                             (case skip_ws r3 of
                                [] \<Rightarrow> Failed
                              | c # r4 \<Rightarrow>
                                  if c = 0x2C then
                                    (case parse_members n r4 of
                                       Parsed ms rest \<Rightarrow> Parsed ((k, v) # ms) rest
                                     | Failed \<Rightarrow> Failed
                                     | OutOfFuel \<Rightarrow> OutOfFuel)
                                  else if c = 0x7D then Parsed [(k, v)] r4
                                  else Failed))
                      else Failed))
          else Failed)"

text \<open>
  \<open>JSON.parse(text)\<close>: one value with white space around it and nothing else, or a
  \<open>SyntaxError\<close>. The fuel is twice the length of the text plus one, which
  \<open>JSON_parse_fuel\<close> below shows is never used up; the branch of \<open>OutOfFuel\<close> is
  written as the \<open>RangeError\<close> of an exhausted stack.
\<close>

definition JSON_parse :: "jsstring \<Rightarrow> error + json" where
  "JSON_parse text =
     (case parse_value (2 * length text + 1) text of
        Parsed v rest \<Rightarrow> if skip_ws rest = [] then Inr v else Inl SyntaxError
      | Failed \<Rightarrow> Inl SyntaxError
      | OutOfFuel \<Rightarrow> Inl RangeError)"

section \<open>The question generator adapter (services/geminiService.ts)\<close>

text \<open>
  The external model is a parameter \<open>generateContent\<close>: from the prompt to the text of the
  response, or to the error that the call (or reading the response's text) throws. The
  two \<open>console\<close> calls only log and are left out.
\<close>

definition quiz_prompt :: "jsstring \<Rightarrow> jsstring \<Rightarrow> jsstring" where
  \<open>quiz_prompt topic difficulty =
     js ''Generate 5 multiple choice questions based on the following content. Content: "''
     @ topic @ js ''". Difficulty: '' @ difficulty
     @ js ''. Return ONLY a raw JSON array. Format: [{ "question": "...", "options": ["a", "b", "c", "d"], "answer": "correct_option_text" }]''\<close>

text \<open>
  \<open>text.match(/\[[\s\S]*\]/)\<close>: the class \<open>[\s\S]\<close> takes every code unit and the star
  is greedy, so the leftmost match starts at the first \<open>[\<close> of the text and runs to the
  last \<open>]\<close> after it; there is no match when the text has no \<open>[\<close> or no \<open>]\<close> follows the
  first one (then none follows a later one either). The result is \<open>jsonMatch[0]\<close>.
\<close>

definition match_json_array :: "jsstring \<Rightarrow> jsstring option" where
  "match_json_array text =
     (case dropWhile (\<lambda>c. c \<noteq> 0x5B) text of
        [] \<Rightarrow> None
      | lb # rest \<Rightarrow>
          (case dropWhile (\<lambda>c. c \<noteq> 0x5D) (rev rest) of
             [] \<Rightarrow> None
           | rb # body \<Rightarrow> Some (lb # rev body @ [rb])))"

text \<open>The question of the safety net, as the object literal of the \<open>catch\<close> block.\<close>

definition fallback_question :: json where
  "fallback_question =
     JObject
       [(js ''question'',
           JString (js ''The AI could not process this PDF/Topic. Please try a shorter text or check your API Key.'')),
        (js ''options'',
           JArray [JString (js ''Error''), JString (js ''Try Again''),
                   JString (js ''Check Key''), JString (js ''Refresh'')]),
        (js ''answer'', JString (js ''Try Again''))]"

definition generateQuiz ::
  "(jsstring \<Rightarrow> error + jsstring) \<Rightarrow> jsstring \<Rightarrow> jsstring \<Rightarrow> error + json" where
  "generateQuiz generateContent topic difficulty =
     try_catch
       (case generateContent (quiz_prompt topic difficulty) of
          Inl e \<Rightarrow> Inl e
        | Inr text \<Rightarrow>
            (case match_json_array text of
               None \<Rightarrow> Inl (Error (js ''No JSON array found in response''))
             | Some cleanJson \<Rightarrow> JSON_parse cleanJson))
       (\<lambda>error. Inr (JArray [fallback_question]))"

text \<open>
  The score in the prompt of the study guide is written by the template literal, that is
  by the runtime's conversion of a number to a string. The conversion is a parameter
  \<open>toString\<close>, and the type of numbers is left open.
\<close>

definition guide_prompt :: "('n \<Rightarrow> jsstring) \<Rightarrow> jsstring \<Rightarrow> 'n \<Rightarrow> jsstring" where
  \<open>guide_prompt toString topic score =
     js ''Create a short study guide for the following content: "'' @ topic
     @ js ''". The student scored '' @ toString score
     @ js ''/5. Give 3 key bullet points to review.''\<close>

definition generateStudyGuide ::
  "(jsstring \<Rightarrow> error + jsstring) \<Rightarrow> ('n \<Rightarrow> jsstring) \<Rightarrow> jsstring \<Rightarrow> 'n
     \<Rightarrow> error + jsstring" where
  "generateStudyGuide generateContent toString topic score =
     try_catch
       (generateContent (guide_prompt toString topic score))
       (\<lambda>error. Inr (js ''Unable to generate study guide at this time.''))"

text \<open>
  The shape that types.ts declares for a question (\<open>interface QuizQuestion\<close>), read on
  a parsed value: \<open>id\<close> a number, \<open>question\<close>, \<open>correctAnswer\<close> and \<open>explanation\<close>
  strings, \<open>options\<close> an array of strings.
\<close>

definition is_number :: "json option \<Rightarrow> bool" where
  "is_number v = (case v of Some (JNumber n) \<Rightarrow> True | _ \<Rightarrow> False)"

definition is_string :: "json option \<Rightarrow> bool" where
  "is_string v = (case v of Some (JString s) \<Rightarrow> True | _ \<Rightarrow> False)"

definition is_string_array :: "json option \<Rightarrow> bool" where
  "is_string_array v =
     (case v of Some (JArray xs) \<Rightarrow> list_all (\<lambda>x. is_string (Some x)) xs | _ \<Rightarrow> False)"

definition is_QuizQuestion :: "json \<Rightarrow> bool" where
  "is_QuizQuestion v =
     (is_number (get_prop v (js ''id''))
      \<and> is_string (get_prop v (js ''question''))
      \<and> is_string_array (get_prop v (js ''options''))
      \<and> is_string (get_prop v (js ''correctAnswer''))
      \<and> is_string (get_prop v (js ''explanation'')))"

section \<open>Numbers: the double arithmetic of the score\<close>

text \<open>
  A JavaScript number is an IEEE 754 double. The score is computed from two array lengths
  by one division, one multiplication and \<open>Math.round\<close>, so the model has the
  non-negative doubles only: \<open>Dyadic m e\<close> is the number \<open>m * 2^e\<close> (with \<open>m \<ge> 0\<close>), next
  to \<open>Infinity\<close> and \<open>NaN\<close>, which division by zero yields. Division and
  multiplication round the exact result to 53 significant bits, to nearest and ties to
  even, as the standard prescribes. The exponent range (overflow, gradual underflow) is
  not modelled: quotients of array lengths, which are below \<open>2^32\<close>, and their products
  by 100 are far inside it.
\<close>

datatype double = Dyadic int int | PosInf | NaN

text \<open>The number of binary digits of a natural number.\<close>

fun bitlen :: "nat \<Rightarrow> nat" where
  "bitlen n = (if n = 0 then 0 else Suc (bitlen (n div 2)))"

text \<open>The fraction \<open>p / q\<close> divided by \<open>2^e\<close>, as a numerator and a denominator.\<close>

definition scale :: "int \<Rightarrow> int \<Rightarrow> int \<Rightarrow> int \<times> int" where
  "scale p q e = (if 0 \<le> e then (p, q * 2 ^ nat e) else (p * 2 ^ nat (- e), q))"

text \<open>The integer nearest to \<open>P / Q\<close> (for \<open>Q > 0\<close>), a tie going to the even one.\<close>

definition round_half_even :: "int \<times> int \<Rightarrow> int" where
  "round_half_even PQ =
     (let m = fst PQ div snd PQ; r = fst PQ mod snd PQ
      in if 2 * r < snd PQ then m
         else if snd PQ < 2 * r then m + 1
         else if even m then m else m + 1)"

text \<open>
  The double nearest to \<open>p / q\<close>, for positive \<open>p\<close> and \<open>q\<close>: the exponent \<open>e\<close> is the one
  with \<open>2^52 \<le> (p / q) / 2^e < 2^53\<close> (the difference of the bit lengths less 53, or one
  more), and the significand is that quotient rounded.
\<close>

definition binary_exponent :: "int \<Rightarrow> int \<Rightarrow> int" where
  "binary_exponent p q =
     (let e0 = int (bitlen (nat p)) - int (bitlen (nat q)) - 53
      in if fst (scale p q e0) div snd (scale p q e0) < 2 ^ 53 then e0 else e0 + 1)"

definition round_to_double :: "int \<Rightarrow> int \<Rightarrow> double" where
  "round_to_double p q =
     Dyadic (round_half_even (scale p q (binary_exponent p q))) (binary_exponent p q)"

text \<open>\<open>a / b\<close> on numbers.\<close>

fun js_div :: "double \<Rightarrow> double \<Rightarrow> double" where
  "js_div (Dyadic m1 e1) (Dyadic m2 e2) =
     (if m2 = 0 then (if m1 = 0 then NaN else PosInf)
      else if m1 = 0 then Dyadic 0 0
      else if e2 \<le> e1 then round_to_double (m1 * 2 ^ nat (e1 - e2)) m2
      else round_to_double m1 (m2 * 2 ^ nat (e2 - e1)))"
| "js_div (Dyadic m1 e1) PosInf = Dyadic 0 0"
| "js_div PosInf (Dyadic m2 e2) = PosInf"
| "js_div PosInf PosInf = NaN"
| "js_div NaN b = NaN"
| "js_div a NaN = NaN"

text \<open>\<open>a * b\<close> on numbers.\<close>

fun js_mul :: "double \<Rightarrow> double \<Rightarrow> double" where
  "js_mul (Dyadic m1 e1) (Dyadic m2 e2) =
     (if m1 = 0 \<or> m2 = 0 then Dyadic 0 0
      else round_to_double (fst (scale (m1 * m2) 1 (- (e1 + e2))))
             (snd (scale (m1 * m2) 1 (- (e1 + e2)))))"
| "js_mul (Dyadic m1 e1) PosInf = (if m1 = 0 then NaN else PosInf)"
| "js_mul PosInf (Dyadic m2 e2) = (if m2 = 0 then NaN else PosInf)"
| "js_mul PosInf PosInf = PosInf"
| "js_mul NaN b = NaN"
| "js_mul a NaN = NaN"

text \<open>
  \<open>Math.round(x)\<close>: the integer nearest to \<open>x\<close>, a tie going up, that is the floor of
  \<open>x + 1/2\<close>, computed exactly.
\<close>

fun Math_round :: "double \<Rightarrow> double" where
  "Math_round (Dyadic m e) =
     (if 0 \<le> e then Dyadic (m * 2 ^ nat e) 0
      else Dyadic ((2 * m + 2 ^ nat (- e)) div 2 ^ nat (1 - e)) 0)"
| "Math_round PosInf = PosInf"
| "Math_round NaN = NaN"

text \<open>An array length as a number: an integer below \<open>2^32\<close>, which a double holds exactly.\<close>

definition of_length :: "nat \<Rightarrow> double" where
  "of_length n = Dyadic (int n) 0"

text \<open>
  The real number a finite double stands for (the two values that are not finite are sent
  to 0; no statement below reads their value).
\<close>

fun val :: "double \<Rightarrow> real" where
  "val (Dyadic m e) = of_int m * 2 powi e"
| "val PosInf = 0"
| "val NaN = 0"

section \<open>The data of a quiz (types.ts)\<close>

text \<open>
  The interfaces as records. A field whose name another record or the library already
  has carries the initial of its record: \<open>id_q\<close> is \<open>QuizQuestion.id\<close>,
  \<open>correctAnswer_a\<close> is \<open>UserAnswer.correctAnswer\<close>, and \<open>id_s\<close>, \<open>questions_s\<close>,
  \<open>answers_s\<close> are the fields \<open>id\<close>, \<open>questions\<close>, \<open>answers\<close> of \<open>SavedQuiz\<close>.
\<close>

record QuizQuestion =
  id_q :: int
  question :: jsstring
  options :: "jsstring list"
  correctAnswer :: jsstring
  explanation :: jsstring

record UserAnswer =
  questionId :: int
  questionText :: jsstring
  selectedOption :: jsstring
  correctAnswer_a :: jsstring
  isCorrect :: bool

record SavedQuiz =
  id_s :: jsstring
  topic :: jsstring
  date :: jsstring
  score :: double
  totalQuestions :: nat
  questions_s :: "QuizQuestion list"
  answers_s :: "UserAnswer list"

datatype AppState = DASHBOARD | SETUP | GENERATING | QUIZ | RESULTS

section \<open>The quiz session (components/QuizGame.tsx)\<close>

text \<open>
  The state of the component is its six \<open>useState\<close> cells (\<open>selectedOption_g\<close> is the
  cell \<open>selectedOption\<close>). The props \<open>questions\<close> and \<open>timerSeconds\<close> are parameters of
  the handlers; \<open>timerSeconds\<close> is optional, and a number that is 0 counts as absent
  wherever the code tests it.
\<close>

record QuizGame =
  currentIndex :: nat
  selectedOption_g :: "jsstring option"
  isAnswered :: bool
  answers :: "UserAnswer list"
  timeLeft :: int
  streak :: nat

definition truthy :: "int option \<Rightarrow> bool" where
  "truthy t = (case t of None \<Rightarrow> False | Some n \<Rightarrow> n \<noteq> 0)"

text \<open>The initial cells; \<open>timeLeft\<close> starts at \<open>timerSeconds || 0\<close>.\<close>

definition init_QuizGame :: "int option \<Rightarrow> QuizGame" where
  "init_QuizGame timerSeconds =
     \<lparr>currentIndex = 0, selectedOption_g = None, isAnswered = False, answers = [],
      timeLeft = (case timerSeconds of None \<Rightarrow> 0 | Some n \<Rightarrow> n), streak = 0\<rparr>"

text \<open>\<open>questions[currentIndex]\<close>, which is \<open>undefined\<close> (here \<open>None\<close>) out of range.\<close>

definition currentQuestion :: "QuizQuestion list \<Rightarrow> QuizGame \<Rightarrow> QuizQuestion option" where
  "currentQuestion qs g =
     (if currentIndex g < length qs then Some (qs ! currentIndex g) else None)"

text \<open>
  \<open>handleOptionClick(option, userInitiated)\<close>. The guard comes first; reading
  \<open>correctAnswer\<close> of an undefined question throws a \<open>TypeError\<close>. Clearing the
  interval is not a separate cell: the interval runs exactly while \<open>timer_running\<close> below
  holds, which setting \<open>isAnswered\<close> ends.
\<close>

definition handleOptionClick ::
  "QuizQuestion list \<Rightarrow> jsstring \<Rightarrow> bool \<Rightarrow> QuizGame \<Rightarrow> error + QuizGame" where
  "handleOptionClick qs option userInitiated g =
     (if isAnswered g then Inr g
      else
        (case currentQuestion qs g of
           None \<Rightarrow> Inl TypeError
         | Some q \<Rightarrow>
             Inr (g\<lparr>selectedOption_g := Some option,
                    isAnswered := True,
                    streak := (if option = correctAnswer q then streak g + 1 else 0),
                    answers := answers g @
                      [\<lparr>questionId = id_q q,
                        questionText = question q,
                        selectedOption = (if userInitiated then option else js ''Time Out''),
                        correctAnswer_a = correctAnswer q,
                        isCorrect = (option = correctAnswer q)\<rparr>]\<rparr>)))"

definition handleTimeOut :: "QuizQuestion list \<Rightarrow> QuizGame \<Rightarrow> error + QuizGame" where
  "handleTimeOut qs g = handleOptionClick qs (js ''__TIMEOUT__'') False g"

text \<open>
  \<open>handleNext\<close> either moves to the next question or calls \<open>onComplete(answers)\<close>. It has
  no guard of its own. The handler belongs to a render of the component: the test
  \<open>currentIndex < questions.length - 1\<close> and the argument \<open>answers\<close> read the cells as that
  render saw them (\<open>c\<close>), while \<open>setCurrentIndex(prev => prev + 1)\<close> counts on from the
  cell as it is when the handler runs (\<open>g\<close>). For the handler of the current render the
  two are the same. The test is false for an empty list in the source (the right side is
  -1) as it is here (the right side is 0).
\<close>

datatype next_result = Advance QuizGame | OnComplete "UserAnswer list"

definition handleNext :: "QuizQuestion list \<Rightarrow> QuizGame \<Rightarrow> QuizGame \<Rightarrow> next_result" where
  "handleNext qs c g =
     (if currentIndex c < length qs - 1
      then Advance (g\<lparr>currentIndex := currentIndex g + 1,
                       selectedOption_g := None,
                       isAnswered := False\<rparr>)
      else OnComplete (answers c))"

text \<open>
  The effect on \<open>[currentIndex, timerSeconds, isAnswered]\<close>: with a timer and an open
  question it resets \<open>timeLeft\<close> and starts the interval; its clean-up stops the interval.
  So the interval runs exactly while \<open>timer_running\<close> holds.
\<close>

definition timer_running :: "int option \<Rightarrow> QuizGame \<Rightarrow> bool" where
  "timer_running timerSeconds g = (truthy timerSeconds \<and> \<not> isAnswered g)"

definition timer_effect :: "int option \<Rightarrow> QuizGame \<Rightarrow> QuizGame" where
  "timer_effect timerSeconds g =
     (case timerSeconds of
        None \<Rightarrow> g
      | Some n \<Rightarrow> if n \<noteq> 0 \<and> \<not> isAnswered g then g\<lparr>timeLeft := n\<rparr> else g)"

text \<open>One run of the interval's callback: at 1 or below the time is out.\<close>

definition tick :: "QuizQuestion list \<Rightarrow> QuizGame \<Rightarrow> error + QuizGame" where
  "tick qs g =
     (if timeLeft g \<le> 1 then
        (case handleTimeOut qs g of
           Inl e \<Rightarrow> Inl e
         | Inr g' \<Rightarrow> Inr (g'\<lparr>timeLeft := 0\<rparr>))
      else Inr (g\<lparr>timeLeft := timeLeft g - 1\<rparr>))"

section \<open>The application shell (App.tsx)\<close>

record App =
  appState :: AppState
  isLoading :: bool
  questions :: "QuizQuestion list"
  userAnswers :: "UserAnswer list"
  currentTopic :: jsstring
  timerSeconds :: "int option"
  errorToast :: "jsstring option"
  savedQuizzes :: "SavedQuiz list"
  reviewQuiz :: "SavedQuiz option"

text \<open>
  \<open>Math.round((answers.filter(a => a.isCorrect).length / questions.length) * 100)\<close>
\<close>

definition quiz_score :: "UserAnswer list \<Rightarrow> QuizQuestion list \<Rightarrow> double" where
  "quiz_score as qs =
     Math_round
       (js_mul (js_div (of_length (length (filter isCorrect as))) (of_length (length qs)))
               (Dyadic 100 0))"

text \<open>
  \<open>handleQuizComplete(answers)\<close>; \<open>now\<close> is \<open>Date.now().toString()\<close> and \<open>isoDate\<close> is
  \<open>new Date().toISOString()\<close> at the call.
\<close>

definition handleQuizComplete :: "jsstring \<Rightarrow> jsstring \<Rightarrow> UserAnswer list \<Rightarrow> App \<Rightarrow> App" where
  "handleQuizComplete now isoDate as app =
     app\<lparr>userAnswers := as,
          savedQuizzes :=
            \<lparr>id_s = now, topic = currentTopic app, date = isoDate,
             score = quiz_score as (questions app),
             totalQuestions = length (questions app),
             questions_s = questions app, answers_s = as\<rparr> # savedQuizzes app,
          appState := RESULTS\<rparr>"

definition handleDeleteQuiz :: "jsstring \<Rightarrow> App \<Rightarrow> App" where
  "handleDeleteQuiz i app = app\<lparr>savedQuizzes := filter (\<lambda>q. id_s q \<noteq> i) (savedQuizzes app)\<rparr>"

definition handleBackToDashboard :: "App \<Rightarrow> App" where
  "handleBackToDashboard app =
     app\<lparr>appState := DASHBOARD, questions := [], userAnswers := [],
          reviewQuiz := None, errorToast := None\<rparr>"

section \<open>A session: the shell and the quiz on the page\<close>

text \<open>
  A session is the shell together with the quiz component that is on the page, or the
  shell alone once the component has been removed, or a crash: the component's render
  reads \<open>currentQuestion.id\<close>, which throws when there is no current question. The
  component keeps the props it was mounted with, the questions \<open>qs\<close> and the timer \<open>ts\<close>.

  The shell renders the component in state \<open>QUIZ\<close>, inside an \<open>AnimatePresence\<close> with an
  exit animation, so the component stays on the page, alive, for a while after the shell
  has left that state, until \<open>QuizRemoved\<close>. In the same way the component wraps the card
  of the current question in an \<open>AnimatePresence\<close>, keyed by the identifier of the
  question and with an exit animation of 0.3 seconds: after an advance the card that
  leaves is still on the page, as the element of the render that showed it, and its
  buttons call the handlers of that render.
\<close>

datatype session = Live App "QuizQuestion list" "int option" QuizGame | Gone App | Crashed

definition render :: "App \<Rightarrow> QuizQuestion list \<Rightarrow> int option \<Rightarrow> QuizGame \<Rightarrow> session" where
  "render app qs ts g =
     (case currentQuestion qs g of
        None \<Rightarrow> Crashed
      | Some q \<Rightarrow> Live app qs ts g)"

text \<open>The session as a successful generation leaves it: the quiz mounts afresh.\<close>

definition start_session :: "App \<Rightarrow> session" where
  "start_session app =
     (if appState app = QUIZ
      then render app (questions app) (timerSeconds app) (init_QuizGame (timerSeconds app))
      else Gone app)"

text \<open>
  The prop \<open>onComplete\<close> is the \<open>handleQuizComplete\<close> of the shell's render that mounted the
  quiz: it reads the questions of that render, which are the props \<open>qs\<close> (the shell's own
  cell may have been emptied by an exit since), and updates the shell as it is now.
\<close>

definition onComplete :: "QuizQuestion list \<Rightarrow> jsstring \<Rightarrow> jsstring \<Rightarrow> UserAnswer list \<Rightarrow> App \<Rightarrow> App" where
  "onComplete qs now isoDate as app =
     (handleQuizComplete now isoDate as (app\<lparr>questions := qs\<rparr>))\<lparr>questions := questions app\<rparr>"

text \<open>
  Events are handled one at a time: the state updates that a handler queues are applied
  when it returns, the component renders again, and the next event meets the cells of that
  render.

  \<open>ClickOption i\<close> is a click on the i-th option button of the current card, which
  exists for each option of the current question and is disabled once the question is
  answered. \<open>Tick\<close> is the interval firing, which it does only while the timer runs.
  \<open>ClickNext\<close> is a click on the advance button of the current card, which is rendered
  only under \<open>isAnswered\<close>; the click carries the clock readings that
  \<open>handleQuizComplete\<close> takes if the quiz ends. \<open>ClickStaleNext c\<close> is a click on the
  advance button of a card that is leaving the page, rendered from an earlier render \<open>c\<close>
  of the quiz (one in which the question was answered, or the card would have no such
  button); which cards are still on the page is not recorded, so \<open>c\<close> is arbitrary and the
  runs of the model include those of the page. \<open>ClickExit\<close> is the exit button.
  \<open>QuizRemoved\<close> is the end of the exit animation of the component, after the shell has
  left state \<open>QUIZ\<close>.
\<close>

datatype event =
    ClickOption nat
  | Tick
  | ClickNext jsstring jsstring
  | ClickStaleNext QuizGame jsstring jsstring
  | ClickExit
  | QuizRemoved

definition after_handler ::
  "App \<Rightarrow> QuizQuestion list \<Rightarrow> int option \<Rightarrow> error + QuizGame \<Rightarrow> session" where
  "after_handler app qs ts r =
     (case r of
        Inl e \<Rightarrow> Crashed
      | Inr g \<Rightarrow> render app qs ts (timer_effect ts g))"

text \<open>
  A call of \<open>handleNext\<close>, from the render \<open>c\<close>, on the cells \<open>g\<close>. When it calls
  \<open>onComplete\<close> the cells stay as they are.
\<close>

definition advance ::
  "App \<Rightarrow> QuizQuestion list \<Rightarrow> int option \<Rightarrow> QuizGame \<Rightarrow> QuizGame \<Rightarrow> jsstring \<Rightarrow> jsstring
     \<Rightarrow> session" where
  "advance app qs ts c g now isoDate =
     (case handleNext qs c g of
        Advance g' \<Rightarrow> render app qs ts (timer_effect ts g')
      | OnComplete as \<Rightarrow> Live (onComplete qs now isoDate as app) qs ts g)"

fun step :: "session \<Rightarrow> event \<Rightarrow> session" where
  "step (Live app qs ts g) (ClickOption i) =
     (case currentQuestion qs g of
        None \<Rightarrow> Crashed
      | Some q \<Rightarrow>
          if i < length (options q) \<and> \<not> isAnswered g
          then after_handler app qs ts (handleOptionClick qs (options q ! i) True g)
          else Live app qs ts g)"
| "step (Live app qs ts g) Tick =
     (if timer_running ts g
      then (case tick qs g of
              Inl e \<Rightarrow> Crashed
            | Inr g' \<Rightarrow> render app qs ts g')
      else Live app qs ts g)"
| "step (Live app qs ts g) (ClickNext now isoDate) =
     (if isAnswered g then advance app qs ts g g now isoDate else Live app qs ts g)"
| "step (Live app qs ts g) (ClickStaleNext c now isoDate) =
     (if isAnswered c then advance app qs ts c g now isoDate else Live app qs ts g)"
| "step (Live app qs ts g) ClickExit = Live (handleBackToDashboard app) qs ts g"
| "step (Live app qs ts g) QuizRemoved =
     (if appState app = QUIZ then Live app qs ts g else Gone app)"
| "step (Gone app) ev = Gone app"
| "step Crashed ev = Crashed"

definition run :: "session \<Rightarrow> event list \<Rightarrow> session" where
  "run s evs = foldl step s evs"

section \<open>Concrete inputs\<close>

text \<open>
  The format that the prompt asks the model for is itself a JSON text; \<open>prompt_format\<close> is
  a response that consists of exactly that text, and \<open>prompt_format_record\<close> the one record
  in it.
\<close>

definition prompt_format :: jsstring where
  \<open>prompt_format = js ''[{ "question": "...", "options": ["a", "b", "c", "d"], "answer": "correct_option_text" }]''\<close>

definition prompt_format_record :: json where
  "prompt_format_record =
     JObject
       [(js ''question'', JString (js ''...'')),
        (js ''options'', JArray [JString (js ''a''), JString (js ''b''), JString (js ''c''), JString (js ''d'')]),
        (js ''answer'', JString (js ''correct_option_text''))]"

text \<open>
  Two questions and a shell in state \<open>QUIZ\<close> with a timer of two seconds, for the
  instances below: \<open>answered_first\<close> is the quiz after a click on the first option of the
  first question, \<open>first_timed_out\<close> the quiz after the first question has timed out
  instead, and \<open>answer_two_timeout\<close> the answer that a timeout on the second question
  records.
\<close>

definition question_one :: QuizQuestion where
  "question_one =
     \<lparr>id_q = 1, question = js ''Which river flows through Paris?'',
      options = [js ''Seine'', js ''Loire''],
      correctAnswer = js ''Seine'', explanation = js ''The Seine crosses Paris.''\<rparr>"

definition question_two :: QuizQuestion where
  "question_two =
     \<lparr>id_q = 2, question = js ''Which river flows through Rome?'',
      options = [js ''Arno'', js ''Tiber''],
      correctAnswer = js ''Tiber'', explanation = js ''The Tiber crosses Rome.''\<rparr>"

definition example_app :: App where
  "example_app =
     \<lparr>appState = QUIZ, isLoading = False, questions = [question_one, question_two],
      userAnswers = [], currentTopic = js ''Rivers'', timerSeconds = Some 2,
      errorToast = None, savedQuizzes = [], reviewQuiz = None\<rparr>"

definition answer_one :: UserAnswer where
  "answer_one =
     \<lparr>questionId = 1, questionText = js ''Which river flows through Paris?'',
      selectedOption = js ''Seine'', correctAnswer_a = js ''Seine'', isCorrect = True\<rparr>"

definition answered_first :: QuizGame where
  "answered_first =
     \<lparr>currentIndex = 0, selectedOption_g = Some (js ''Seine''), isAnswered = True,
      answers = [answer_one], timeLeft = 2, streak = 1\<rparr>"

definition answer_two_timeout :: UserAnswer where
  "answer_two_timeout =
     \<lparr>questionId = 2, questionText = js ''Which river flows through Rome?'',
      selectedOption = js ''Time Out'', correctAnswer_a = js ''Tiber'', isCorrect = False\<rparr>"

definition first_timed_out :: QuizGame where
  "first_timed_out =
     \<lparr>currentIndex = 0, selectedOption_g = Some (js ''__TIMEOUT__''), isAnswered = True,
      answers =
        [\<lparr>questionId = 1, questionText = js ''Which river flows through Paris?'',
          selectedOption = js ''Time Out'', correctAnswer_a = js ''Seine'', isCorrect = False\<rparr>],
      timeLeft = 2, streak = 0\<rparr>"

text \<open>
  Two questions whose texts meet the strings of the timeout path: one has the option
  \<open>Time Out\<close>, the other has \<open>__TIMEOUT__\<close> as its correct answer.
\<close>

definition question_time_out :: QuizQuestion where
  "question_time_out =
     \<lparr>id_q = 3, question = js ''What does a coach call to stop the clock?'',
      options = [js ''Time Out'', js ''Offside''],
      correctAnswer = js ''Time Out'', explanation = js ''A time out stops the clock.''\<rparr>"

definition question_sentinel :: QuizQuestion where
  "question_sentinel =
     \<lparr>id_q = 4, question = js ''Which identifier marks an expired timer?'',
      options = [js ''__TIMEOUT__'', js ''__EXPIRED__''],
      correctAnswer = js ''__TIMEOUT__'', explanation = js ''The first one.''\<rparr>"

text \<open>
  A quiz of three questions without a timer, and the states of a session on it in which
  the advance button of the first card is clicked a second time while the card leaves:
  \<open>three_answered_first\<close> after the click on the first option of the first question,
  \<open>three_second_open\<close> after the first advance, \<open>three_third_open\<close> after the second,
  \<open>three_answered_third\<close> after a click on the second option of the third question.
\<close>

definition question_three :: QuizQuestion where
  "question_three =
     \<lparr>id_q = 3, question = js ''Which river flows through Vienna?'',
      options = [js ''Elbe'', js ''Danube''],
      correctAnswer = js ''Danube'', explanation = js ''The Danube crosses Vienna.''\<rparr>"

definition three_app :: App where
  "three_app =
     \<lparr>appState = QUIZ, isLoading = False,
      questions = [question_one, question_two, question_three],
      userAnswers = [], currentTopic = js ''Rivers'', timerSeconds = None,
      errorToast = None, savedQuizzes = [], reviewQuiz = None\<rparr>"

definition answer_three :: UserAnswer where
  "answer_three =
     \<lparr>questionId = 3, questionText = js ''Which river flows through Vienna?'',
      selectedOption = js ''Danube'', correctAnswer_a = js ''Danube'', isCorrect = True\<rparr>"

definition three_answered_first :: QuizGame where
  "three_answered_first =
     \<lparr>currentIndex = 0, selectedOption_g = Some (js ''Seine''), isAnswered = True,
      answers = [answer_one], timeLeft = 0, streak = 1\<rparr>"

definition three_second_open :: QuizGame where
  "three_second_open =
     \<lparr>currentIndex = 1, selectedOption_g = None, isAnswered = False,
      answers = [answer_one], timeLeft = 0, streak = 1\<rparr>"

definition three_third_open :: QuizGame where
  "three_third_open =
     \<lparr>currentIndex = 2, selectedOption_g = None, isAnswered = False,
      answers = [answer_one], timeLeft = 0, streak = 1\<rparr>"

definition three_answered_third :: QuizGame where
  "three_answered_third =
     \<lparr>currentIndex = 2, selectedOption_g = Some (js ''Danube''), isAnswered = True,
      answers = [answer_one, answer_three], timeLeft = 0, streak = 2\<rparr>"

definition skipping_events :: "event list" where
  "skipping_events =
     [ClickOption 0,
      ClickNext (js ''1700000000000'') (js ''2023-11-14T22:13:20.000Z''),
      ClickStaleNext three_answered_first (js ''1700000000100'') (js ''2023-11-14T22:13:20.100Z''),
      ClickOption 1,
      ClickNext (js ''1700000003000'') (js ''2023-11-14T22:13:23.000Z'')]"


text \<open>
  Saved records for the history: \<open>saved_first\<close> and \<open>saved_second\<close> have identifiers of
  their own, \<open>saved_twin\<close> has the identifier of \<open>saved_first\<close> (two records written in
  the same millisecond, or a stored history that holds the same record twice).
\<close>

definition saved_first :: SavedQuiz where
  "saved_first =
     \<lparr>id_s = js ''1700000000000'', topic = js ''Rivers'', date = js ''2023-11-14T22:13:20.000Z'',
      score = Dyadic 50 0, totalQuestions = 2, questions_s = [question_one, question_two],
      answers_s = [answer_one, answer_two_timeout]\<rparr>"

definition saved_second :: SavedQuiz where
  "saved_second =
     \<lparr>id_s = js ''1700000600000'', topic = js ''Lakes'', date = js ''2023-11-14T22:23:20.000Z'',
      score = Dyadic 100 0, totalQuestions = 1, questions_s = [question_one],
      answers_s = [answer_one]\<rparr>"

definition saved_twin :: SavedQuiz where
  "saved_twin =
     \<lparr>id_s = js ''1700000000000'', topic = js ''Seas'', date = js ''2023-11-14T22:13:20.000Z'',
      score = Dyadic 0 0, totalQuestions = 1, questions_s = [question_two],
      answers_s = [answer_two_timeout]\<rparr>"

definition dashboard_app :: "SavedQuiz list \<Rightarrow> App" where
  "dashboard_app history =
     \<lparr>appState = DASHBOARD, isLoading = False, questions = [], userAnswers = [],
      currentTopic = js '''', timerSeconds = None, errorToast = None,
      savedQuizzes = history, reviewQuiz = None\<rparr>"

text \<open>
  A quiz of forty questions (the first question of the example under the identifiers 0
  to 39) with 23 of them answered by a click on the right option and 17 by a click on
  the wrong one.
\<close>

definition answer_wrong :: UserAnswer where
  "answer_wrong =
     \<lparr>questionId = 1, questionText = js ''Which river flows through Paris?'',
      selectedOption = js ''Loire'', correctAnswer_a = js ''Seine'', isCorrect = False\<rparr>"

definition forty_questions :: "QuizQuestion list" where
  "forty_questions = map (\<lambda>i. question_one\<lparr>id_q := int i\<rparr>) [0..<40]"

definition forty_answers :: "UserAnswer list" where
  "forty_answers =
     map (\<lambda>i. answer_one\<lparr>questionId := int i\<rparr>) [0..<23]
     @ map (\<lambda>i. answer_wrong\<lparr>questionId := int i\<rparr>) [23..<40]"

section \<open>Facts about the JSON parser\<close>

text \<open>Every parser consumes input: what it leaves is shorter than what it was given.\<close>

lemma skip_ws_Cons_length: "skip_ws cs = c # r \<Longrightarrow> length r < length cs"
  using length_dropWhile_le[of is_ws cs] by (simp add: skip_ws_def)

lemma skip_ws_length: "length (skip_ws cs) \<le> length cs"
  by (simp add: skip_ws_def length_dropWhile_le)

lemma cons_result_Some:
  "cons_result c x = Some (s, rest) \<Longrightarrow> \<exists>s'. x = Some (s', rest)"
  by (auto simp: cons_result_def split: option.splits)

lemma parse_string_length: "parse_string cs = Some (s, rest) \<Longrightarrow> length rest < length cs"
proof (induction cs arbitrary: s rest rule: parse_string.induct)
  case 1
  then show ?case by simp
next
  case (2 c cs)
  show ?case
  proof (cases "c = 0x22")
    case True
    with "2.prems" show ?thesis by simp
  next
    case q: False
    show ?thesis
    proof (cases "c = 0x5C")
      case True
      then obtain e cs' where cs: "cs = e # cs'"
        using "2.prems" q by (cases cs) auto
      show ?thesis
      proof (cases "e = 0x75")
        case u: True
        then obtain h1 h2 h3 h4 cs'' u' where cs': "cs' = h1 # h2 # h3 # h4 # cs''"
          and h: "hex4 h1 h2 h3 h4 = Some u'"
          and r: "cons_result u' (parse_string cs'') = Some (s, rest)"
          using "2.prems" q True cs by (auto split: list.splits option.splits)
        from cons_result_Some[OF r] obtain s' where "parse_string cs'' = Some (s', rest)" by blast
        from "2.IH"(1)[OF q True cs u cs' refl refl refl h this] show ?thesis using cs cs' by simp
      next
        case nu: False
        then obtain d where d: "escape e = Some d"
          and r: "cons_result d (parse_string cs') = Some (s, rest)"
          using "2.prems" q True cs by (auto split: option.splits)
        from cons_result_Some[OF r] obtain s' where "parse_string cs' = Some (s', rest)" by blast
        from "2.IH"(2)[OF q True cs nu d this] show ?thesis using cs by simp
      qed
    next
      case nb: False
      then have lo: "\<not> c < 0x20" and r: "cons_result c (parse_string cs) = Some (s, rest)"
        using "2.prems" q by (auto split: if_splits)
      from cons_result_Some[OF r] obtain s' where "parse_string cs = Some (s', rest)" by blast
      from "2.IH"(3)[OF q nb lo this] show ?thesis by simp
    qed
  qed
qed

lemma parse_digits1_length: "parse_digits1 cs = Some (ds, r) \<Longrightarrow> length r \<le> length cs"
  using length_dropWhile_le[of is_digit cs] by (auto simp: parse_digits1_def split: if_splits)

lemma parse_int_part_length: "parse_int_part cs = Some (ds, r) \<Longrightarrow> length r < length cs"
  using length_dropWhile_le[of is_digit "tl cs"]
  by (auto simp: parse_int_part_def split: list.splits if_splits)

lemma parse_frac_length: "parse_frac cs = Some (ds, r) \<Longrightarrow> length r \<le> length cs"
  by (auto simp: parse_frac_def split: list.splits if_splits option.splits dest!: parse_digits1_length)

lemma parse_exp_length: "parse_exp cs = Some (ds, r) \<Longrightarrow> length r \<le> length cs"
  by (auto simp: parse_exp_def split: list.splits if_splits option.splits dest!: parse_digits1_length)

lemma parse_unsigned_length: "parse_unsigned cs = Some (ds, r) \<Longrightarrow> length r < length cs"
  by (fastforce simp: parse_unsigned_def split: option.splits
      dest: parse_int_part_length parse_frac_length parse_exp_length)

lemma parse_number_length: "parse_number cs = Some (ds, r) \<Longrightarrow> length r < length cs"
  by (fastforce simp: parse_number_def split: list.splits if_splits option.splits
      dest: parse_unsigned_length)

lemma parse_literal_length:
  "w \<noteq> [] \<Longrightarrow> parse_literal w cs = Some r \<Longrightarrow> length r < length cs"
proof -
  assume w: "w \<noteq> []" and p: "parse_literal w cs = Some r"
  then have t: "take (length w) cs = js w" and r: "r = drop (length w) cs"
    by (auto simp: parse_literal_def split: if_splits)
  have "length (take (length w) cs) = length w" using t by (simp add: js_def)
  then have "length w \<le> length cs" by simp
  with w r show ?thesis by (cases w) auto
qed



lemma parse_scalar_length: "parse_scalar cs = Parsed v rest \<Longrightarrow> length rest < length cs"
  unfolding parse_scalar_def
  by (auto split: list.splits if_splits option.splits
      dest: parse_string_length parse_number_length parse_literal_length[rotated])

lemma parse_scalar_fuel: "parse_scalar cs \<noteq> OutOfFuel"
  unfolding parse_scalar_def
  by (auto split: list.splits if_splits option.splits)

lemma parse_value_Suc_Cons:
  "skip_ws cs = c # r \<Longrightarrow>
   parse_value (Suc n) cs =
     (if c = 0x5B then
        (case skip_ws r of
           [] \<Rightarrow> Failed
         | c' # r' \<Rightarrow>
             if c' = 0x5D then Parsed (JArray []) r'
             else
               (case parse_elements n r of
                  Parsed vs rest \<Rightarrow> Parsed (JArray vs) rest
                | Failed \<Rightarrow> Failed
                | OutOfFuel \<Rightarrow> OutOfFuel))
      else if c = 0x7B then
        (case skip_ws r of
           [] \<Rightarrow> Failed
         | c' # r' \<Rightarrow>
             if c' = 0x7D then Parsed (JObject []) r'
             else
               (case parse_members n r of
                  Parsed ms rest \<Rightarrow> Parsed (JObject ms) rest
                | Failed \<Rightarrow> Failed
                | OutOfFuel \<Rightarrow> OutOfFuel))
      else parse_scalar (c # r))"
  by simp

lemma parse_length:
  "parse_value n cs = Parsed v rest \<Longrightarrow> length rest < length cs"
  "parse_elements n cs = Parsed vs rest \<Longrightarrow> length rest < length cs"
  "parse_members n cs = Parsed ms rest \<Longrightarrow> length rest < length cs"
proof (induction n cs and n cs and n cs arbitrary: v rest and vs rest and ms rest
    rule: parse_value_parse_elements_parse_members.induct)
  case (1 cs)
  then show ?case by simp
next
  case (2 n cs)
  show ?case
  proof (cases "skip_ws cs")
    case Nil
    with "2.prems" show ?thesis by simp
  next
    case (Cons c r)
    note E = parse_value_Suc_Cons[OF Cons, of n]
    have lr: "length r < length cs" using skip_ws_Cons_length[OF Cons] .
    consider (arr) "c = 0x5B" | (obj) "c \<noteq> 0x5B" "c = 0x7B" | (sc) "c \<noteq> 0x5B" "c \<noteq> 0x7B"
      by blast
    then show ?thesis
    proof cases
      case arr
      show ?thesis
      proof (cases "skip_ws r")
        case Nil
        with "2.prems" E arr show ?thesis by simp
      next
        case inner: (Cons c' r')
        show ?thesis
        proof (cases "c' = 0x5D")
          case True
          with "2.prems" E arr inner have "rest = r'" by simp
          with skip_ws_Cons_length[OF inner] lr show ?thesis by simp
        next
          case False
          with "2.prems" E arr inner obtain vs where "parse_elements n r = Parsed vs rest"
            by (auto split: result.splits)
          from "2.IH"(1)[OF Cons arr inner False this] lr show ?thesis by simp
        qed
      qed
    next
      case obj
      show ?thesis
      proof (cases "skip_ws r")
        case Nil
        with "2.prems" E obj show ?thesis by simp
      next
        case inner: (Cons c' r')
        show ?thesis
        proof (cases "c' = 0x7D")
          case True
          with "2.prems" E obj inner have "rest = r'" by simp
          with skip_ws_Cons_length[OF inner] lr show ?thesis by simp
        next
          case False
          with "2.prems" E obj inner obtain ms where "parse_members n r = Parsed ms rest"
            by (auto split: result.splits)
          from "2.IH"(2)[OF Cons obj(1) obj(2) inner False this] lr show ?thesis by simp
        qed
      qed
    next
      case sc
      with "2.prems" E have "parse_scalar (c # r) = Parsed v rest" by simp
      from parse_scalar_length[OF this] skip_ws_length[of cs] Cons show ?thesis by simp
    qed
  qed
next
  case (3 cs)
  then show ?case by simp
next
  case (4 n cs)
  from "4.prems" obtain v r c r' where
    v: "parse_value n cs = Parsed v r" and s: "skip_ws r = c # r'"
    and alt: "(c = 0x2C \<and> (\<exists>vs'. parse_elements n r' = Parsed vs' rest)) \<or> rest = r'"
    by (auto split: result.splits list.splits if_splits)
  have 1: "length r < length cs" using "4.IH"(1)[OF v] .
  have 2: "length r' < length r" using skip_ws_Cons_length[OF s] .
  from alt show ?case
  proof
    assume "c = 0x2C \<and> (\<exists>vs'. parse_elements n r' = Parsed vs' rest)"
    then obtain vs' where "c = 0x2C" "parse_elements n r' = Parsed vs' rest" by blast
    from "4.IH"(2)[OF v s this] show ?thesis using 1 2 by simp
  next
    assume "rest = r'"
    then show ?thesis using 1 2 by simp
  qed
next
  case (5 cs)
  then show ?case by simp
next
  case (6 n cs)
  from "6.prems" obtain q r k r1 colon r2 v r3 c r4 where
    a: "skip_ws cs = q # r" "q = 0x22" "parse_string r = Some (k, r1)"
       "skip_ws r1 = colon # r2" "colon = 0x3A" "parse_value n r2 = Parsed v r3"
       "skip_ws r3 = c # r4"
    and alt: "(c = 0x2C \<and> (\<exists>ms'. parse_members n r4 = Parsed ms' rest)) \<or> rest = r4"
    by (auto split: result.splits list.splits if_splits option.splits)
  have 1: "length r3 < length r2" using "6.IH"(1)[OF a(1-3) refl a(4-6)] .
  have 2: "length r4 < length r3" using skip_ws_Cons_length[OF a(7)] .
  have 3: "length r2 < length cs"
    using skip_ws_Cons_length[OF a(1)] parse_string_length[OF a(3)] skip_ws_Cons_length[OF a(4)]
    by simp
  from alt show ?case
  proof
    assume "c = 0x2C \<and> (\<exists>ms'. parse_members n r4 = Parsed ms' rest)"
    then obtain ms' where "c = 0x2C" "parse_members n r4 = Parsed ms' rest" by blast
    from "6.IH"(2)[OF a(1-3) refl a(4-7) this] show ?thesis using 1 2 3 by simp
  qed (use 1 2 3 in simp)
qed


lemma parse_fuel:
  "2 * length cs < n \<Longrightarrow> parse_value n cs \<noteq> OutOfFuel"
  "2 * length cs + 1 < n \<Longrightarrow> parse_elements n cs \<noteq> OutOfFuel"
  "2 * length cs + 1 < n \<Longrightarrow> parse_members n cs \<noteq> OutOfFuel"
proof (induction n cs and n cs and n cs
    rule: parse_value_parse_elements_parse_members.induct)
  case (1 cs)
  then show ?case by simp
next
  case (2 n cs)
  show ?case
  proof (cases "skip_ws cs")
    case Nil
    then show ?thesis by simp
  next
    case (Cons c r)
    note E = parse_value_Suc_Cons[OF Cons, of n]
    have lr: "2 * length r + 1 < n" using skip_ws_Cons_length[OF Cons] "2.prems" by simp
    consider (arr) "c = 0x5B" | (obj) "c \<noteq> 0x5B" "c = 0x7B" | (sc) "c \<noteq> 0x5B" "c \<noteq> 0x7B"
      by blast
    then show ?thesis
    proof cases
      case arr
      show ?thesis
      proof (cases "skip_ws r")
        case Nil
        with E arr show ?thesis by simp
      next
        case inner: (Cons c' r')
        show ?thesis
        proof (cases "c' = 0x5D")
          case True
          with E arr inner show ?thesis by simp
        next
          case False
          from "2.IH"(1)[OF Cons arr inner False lr] E arr inner False show ?thesis
            by (simp split: result.splits)
        qed
      qed
    next
      case obj
      show ?thesis
      proof (cases "skip_ws r")
        case Nil
        with E obj show ?thesis by simp
      next
        case inner: (Cons c' r')
        show ?thesis
        proof (cases "c' = 0x7D")
          case True
          with E obj inner show ?thesis by simp
        next
          case False
          from "2.IH"(2)[OF Cons obj(1) obj(2) inner False lr] E obj inner False show ?thesis
            by (simp split: result.splits)
        qed
      qed
    next
      case sc
      with E parse_scalar_fuel[of "c # r"] show ?thesis by simp
    qed
  qed
next
  case (3 cs)
  then show ?case by simp
next
  case (4 n cs)
  have v: "parse_value n cs \<noteq> OutOfFuel" using "4.IH"(1) "4.prems" by simp
  show ?case
  proof (cases "parse_value n cs")
    case (Parsed v r)
    have 1: "length r < length cs" using parse_length(1)[OF Parsed] .
    show ?thesis
    proof (cases "skip_ws r")
      case Nil
      with Parsed show ?thesis by simp
    next
      case (Cons c r')
      have 2: "length r' < length r" using skip_ws_Cons_length[OF Cons] .
      show ?thesis
      proof (cases "c = 0x2C")
        case True
        have "parse_elements n r' \<noteq> OutOfFuel"
          using "4.IH"(2)[OF Parsed Cons True] 1 2 "4.prems" by simp
        with Parsed Cons True show ?thesis by (simp split: result.splits)
      next
        case False
        with Parsed Cons show ?thesis by simp
      qed
    qed
  next
    case Failed
    then show ?thesis by simp
  next
    case OutOfFuel
    with v show ?thesis by simp
  qed
next
  case (5 cs)
  then show ?case by simp
next
  case (6 n cs)
  show ?case
  proof (cases "skip_ws cs")
    case Nil
    then show ?thesis by simp
  next
    case (Cons q r)
    have l0: "length r < length cs" using skip_ws_Cons_length[OF Cons] .
    show ?thesis
    proof (cases "q = 0x22")
      case False
      with Cons show ?thesis by simp
    next
      case q: True
      show ?thesis
      proof (cases "parse_string r")
        case None
        with Cons q show ?thesis by simp
      next
        case (Some kr)
        obtain k r1 where kr: "kr = (k, r1)" by (cases kr)
        have l1: "length r1 < length r" using parse_string_length[of r k r1] Some kr by simp
        show ?thesis
        proof (cases "skip_ws r1")
          case Nil
          with Cons q Some kr show ?thesis by simp
        next
          case colon: (Cons colon r2)
          have l2: "length r2 < length r1" using skip_ws_Cons_length[OF colon] .
          show ?thesis
          proof (cases "colon = 0x3A")
            case False
            with Cons q Some kr colon show ?thesis by simp
          next
            case c: True
            have v: "parse_value n r2 \<noteq> OutOfFuel"
              using "6.IH"(1)[OF Cons q Some kr[symmetric] colon c] "6.prems" l0 l1 l2 by simp
            show ?thesis
            proof (cases "parse_value n r2")
              case (Parsed v r3)
              have l3: "length r3 < length r2" using parse_length(1)[OF Parsed] .
              show ?thesis
              proof (cases "skip_ws r3")
                case Nil
                with Cons q Some kr colon c Parsed show ?thesis by simp
              next
                case sep: (Cons s r4)
                have l4: "length r4 < length r3" using skip_ws_Cons_length[OF sep] .
                show ?thesis
                proof (cases "s = 0x2C")
                  case True
                  have "parse_members n r4 \<noteq> OutOfFuel"
                    using "6.IH"(2)[OF Cons q Some kr[symmetric] colon c Parsed sep True]
                      "6.prems" l0 l1 l2 l3 l4 by simp
                  with Cons q Some kr colon c Parsed sep True show ?thesis
                    by (simp split: result.splits)
                next
                  case False
                  with Cons q Some kr colon c Parsed sep show ?thesis by simp
                qed
              qed
            next
              case Failed
              with Cons q Some kr colon c show ?thesis by simp
            next
              case OutOfFuel
              with v show ?thesis by simp
            qed
          qed
        qed
      qed
    qed
  qed
qed

lemma JSON_parse_fuel: "parse_value (2 * length text + 1) text \<noteq> OutOfFuel"
  using parse_fuel(1)[of "text" "2 * length text + 1"] by simp

lemma JSON_parse_no_RangeError: "JSON_parse text \<noteq> Inl RangeError"
  using JSON_parse_fuel[of "text"] by (simp add: JSON_parse_def split: result.splits)


text \<open>A text that starts with an opening bracket parses to an array or not at all.\<close>

lemma JSON_parse_bracket_is_array:
  assumes "JSON_parse (0x5B # cs) = Inr v"
  shows "\<exists>vs. v = JArray vs"
proof -
  have s: "skip_ws (0x5B # cs) = 0x5B # cs" by (simp add: skip_ws_def is_ws_def)
  have f: "2 * length (0x5B # cs) + 1 = Suc (2 * length (0x5B # cs))" by simp
  obtain rest where "parse_value (Suc (2 * length (0x5B # cs))) (0x5B # cs) = Parsed v rest"
    using assms unfolding JSON_parse_def f by (auto split: result.splits if_splits)
  then show ?thesis
    unfolding parse_value_Suc_Cons[OF s]
    by (auto split: list.splits if_splits result.splits)
qed

section \<open>Facts about the extraction of the array\<close>

lemma match_json_array_span:
  assumes "0x5B \<notin> set pre" and "0x5D \<notin> set suf"
  shows "match_json_array (pre @ 0x5B # mid @ 0x5D # suf) = Some (0x5B # mid @ [0x5D])"
proof -
  have a: "dropWhile (\<lambda>c. c \<noteq> 0x5B) (pre @ 0x5B # mid @ 0x5D # suf) = 0x5B # mid @ 0x5D # suf"
    using assms(1) by (auto simp: dropWhile_append3)
  have b: "dropWhile (\<lambda>c. c \<noteq> 0x5D) (rev (mid @ 0x5D # suf)) = 0x5D # rev mid"
    using assms(2) by (auto simp: dropWhile_append3)
  show ?thesis
    unfolding match_json_array_def a using b by simp
qed

lemma dropWhile_neq_Cons:
  assumes "dropWhile (\<lambda>c. c \<noteq> a) xs = y # ys"
  shows "y = a \<and> xs = takeWhile (\<lambda>c. c \<noteq> a) xs @ a # ys \<and> a \<notin> set (takeWhile (\<lambda>c. c \<noteq> a) xs)"
proof -
  have "y = a" using hd_dropWhile[of "\<lambda>c. c \<noteq> a" xs] assms by simp
  moreover have "xs = takeWhile (\<lambda>c. c \<noteq> a) xs @ y # ys"
    using takeWhile_dropWhile_id[of "\<lambda>c. c \<noteq> a" xs] assms by simp
  moreover have "a \<notin> set (takeWhile (\<lambda>c. c \<noteq> a) xs)"
    by (auto dest: set_takeWhileD)
  ultimately show ?thesis by simp
qed

lemma match_json_array_Some:
  assumes "match_json_array text = Some m"
  shows "\<exists>pre mid suf. text = pre @ 0x5B # mid @ 0x5D # suf \<and> 0x5B \<notin> set pre \<and> 0x5D \<notin> set suf
           \<and> m = 0x5B # mid @ [0x5D]"
proof -
  from assms obtain lb rest rb body where
    d1: "dropWhile (\<lambda>c. c \<noteq> 0x5B) text = lb # rest" and
    d2: "dropWhile (\<lambda>c. c \<noteq> 0x5D) (rev rest) = rb # body" and
    m: "m = lb # rev body @ [rb]"
    by (auto simp: match_json_array_def split: list.splits)
  from dropWhile_neq_Cons[OF d1] have
    lb: "lb = 0x5B" and t: "text = takeWhile (\<lambda>c. c \<noteq> 0x5B) text @ 0x5B # rest"
    and p: "0x5B \<notin> set (takeWhile (\<lambda>c. c \<noteq> 0x5B) text)" by auto
  from dropWhile_neq_Cons[OF d2] have
    rb: "rb = 0x5D" and r: "rev rest = takeWhile (\<lambda>c. c \<noteq> 0x5D) (rev rest) @ 0x5D # body"
    and s: "0x5D \<notin> set (takeWhile (\<lambda>c. c \<noteq> 0x5D) (rev rest))" by auto
  define suf where "suf = rev (takeWhile (\<lambda>c. c \<noteq> 0x5D) (rev rest))"
  have "rev (rev rest) = rev (takeWhile (\<lambda>c. c \<noteq> 0x5D) (rev rest) @ 0x5D # body)"
    using r by simp
  then have rest: "rest = rev body @ 0x5D # suf"
    by (simp add: suf_def)
  have "0x5D \<notin> set suf" using s by (simp add: suf_def)
  have "text = takeWhile (\<lambda>c. c \<noteq> 0x5B) text @ 0x5B # rev body @ 0x5D # suf"
    using t rest by simp
  moreover have "m = 0x5B # rev body @ [0x5D]" using m lb rb by simp
  ultimately show ?thesis using p \<open>0x5D \<notin> set suf\<close> by blast
qed

lemma match_json_array_None:
  assumes "0x5B \<notin> set text \<or> 0x5D \<notin> set text"
  shows "match_json_array text = None"
proof (cases "dropWhile (\<lambda>c. c \<noteq> 0x5B) text")
  case Nil
  show ?thesis unfolding match_json_array_def Nil by simp
next
  case (Cons lb rest)
  have "set (lb # rest) \<subseteq> set text"
    using set_dropWhileD[of _ "\<lambda>c. c \<noteq> 0x5B" "text"] unfolding Cons by blast
  moreover have "lb = 0x5B" using dropWhile_neq_Cons[OF Cons] by simp
  ultimately have "0x5D \<notin> set rest" using assms by auto
  then have d: "dropWhile (\<lambda>c. c \<noteq> 0x5D) (rev rest) = []" by auto
  show ?thesis by (simp only: match_json_array_def Cons d list.case)
qed

lemma match_json_array_starts_with_bracket:
  assumes "match_json_array text = Some m"
  shows "\<exists>cs. m = 0x5B # cs"
  using match_json_array_Some[OF assms] by blast

section \<open>The generator: what it returns\<close>

text \<open>
  The \<open>try\<close> block has three ways to fail (the call, the match, the parse); each ends in
  the \<open>catch\<close> block, which returns the one question of the safety net. Otherwise the
  parsed value is returned as it is.
\<close>

lemma generateQuiz_cases:
  "generateQuiz generateContent tp difficulty =
     (case generateContent (quiz_prompt tp difficulty) of
        Inl e \<Rightarrow> Inr (JArray [fallback_question])
      | Inr text \<Rightarrow>
          (case match_json_array text of
             None \<Rightarrow> Inr (JArray [fallback_question])
           | Some cleanJson \<Rightarrow>
               (case JSON_parse cleanJson of
                  Inl e \<Rightarrow> Inr (JArray [fallback_question])
                | Inr v \<Rightarrow> Inr v)))"
  by (simp add: generateQuiz_def try_catch_def split: sum.splits option.splits)

text \<open>The generator never throws, and what it returns is an array.\<close>

lemma generateQuiz_returns_array:
  "\<exists>vs. generateQuiz generateContent tp difficulty = Inr (JArray vs)"
proof (cases "generateContent (quiz_prompt tp difficulty)")
  case (Inl e)
  then show ?thesis by (simp add: generateQuiz_cases)
next
  case (Inr rsp)
  show ?thesis
  proof (cases "match_json_array rsp")
    case None
    with Inr show ?thesis by (simp add: generateQuiz_cases)
  next
    case (Some m)
    from match_json_array_starts_with_bracket[OF Some] obtain cs where m: "m = 0x5B # cs" by blast
    show ?thesis
    proof (cases "JSON_parse m")
      case (Inl e)
      with Inr Some show ?thesis by (simp add: generateQuiz_cases)
    next
      case r: (Inr v)
      from JSON_parse_bracket_is_array[of cs v] r m obtain vs where "v = JArray vs" by auto
      with Inr Some r show ?thesis by (simp add: generateQuiz_cases)
    qed
  qed
qed

lemma generateQuiz_fallback:
  assumes "generateContent (quiz_prompt tp difficulty) = Inl e
           \<or> (\<exists>rsp. generateContent (quiz_prompt tp difficulty) = Inr rsp
                 \<and> (match_json_array rsp = None
                      \<or> (\<exists>m e'. match_json_array rsp = Some m \<and> JSON_parse m = Inl e')))"
  shows "generateQuiz generateContent tp difficulty = Inr (JArray [fallback_question])"
  using assms by (auto simp: generateQuiz_cases)

lemma match_empty_array: "match_json_array (js ''[]'') = Some (js ''[]'')"
  by code_simp

lemma parse_empty_array: "JSON_parse (js ''[]'') = Inr (JArray [])"
  by code_simp

text \<open>
  Claim C1: the generator never throws, it returns the one question of the safety net on
  every failure, and it never returns an empty sequence. The first two parts are
  \<open>generateQuiz_returns_array\<close> and \<open>generateQuiz_fallback\<close>. The third fails: a response
  whose array is empty matches and parses, so the empty array is returned and the safety
  net is not reached.
\<close>

theorem generateQuiz_empty_array:
  "generateQuiz (\<lambda>prompt. Inr (js ''[]'')) tp difficulty = Inr (JArray [])"
  by (simp add: generateQuiz_cases match_empty_array parse_empty_array)

lemma match_prompt_format: "match_json_array prompt_format = Some prompt_format"
  by code_simp

lemma parse_prompt_format: "JSON_parse prompt_format = Inr (JArray [prompt_format_record])"
  by code_simp

lemma fallback_question_props:
  "get_prop fallback_question (js ''id'') = None"
  "get_prop fallback_question (js ''correctAnswer'') = None"
  "get_prop fallback_question (js ''explanation'') = None"
  "get_prop fallback_question (js ''answer'') = Some (JString (js ''Try Again''))"
  by (simp_all add: get_prop_def fallback_question_def js_def)

lemma prompt_format_record_props:
  "get_prop prompt_format_record (js ''id'') = None"
  "get_prop prompt_format_record (js ''correctAnswer'') = None"
  "get_prop prompt_format_record (js ''explanation'') = None"
  by (simp_all add: get_prop_def prompt_format_record_def js_def)

text \<open>
  Claim C2: every record the generator returns has the shape of a \<open>QuizQuestion\<close>
  (identifier, question, options, correct answer, explanation). The question of the
  safety net has the fields \<open>question\<close>, \<open>options\<close> and \<open>answer\<close> only, and so has a
  record that follows the format the prompt asks for: neither has the \<open>id\<close>, the
  \<open>correctAnswer\<close> or the \<open>explanation\<close> that the interface declares and the quiz
  component reads.
\<close>

theorem generateQuiz_records_not_QuizQuestion:
  "generateQuiz (\<lambda>prompt. Inl e) tp difficulty = Inr (JArray [fallback_question])
   \<and> \<not> is_QuizQuestion fallback_question
   \<and> get_prop fallback_question (js ''id'') = None
   \<and> get_prop fallback_question (js ''correctAnswer'') = None
   \<and> get_prop fallback_question (js ''explanation'') = None
   \<and> generateQuiz (\<lambda>prompt. Inr prompt_format) tp difficulty = Inr (JArray [prompt_format_record])
   \<and> \<not> is_QuizQuestion prompt_format_record"
  by (simp add: generateQuiz_cases fallback_question_props prompt_format_record_props
      match_prompt_format parse_prompt_format is_QuizQuestion_def is_number_def)

text \<open>
  Claim C10: \<open>generateStudyGuide\<close> never throws; it returns the text of the response, or
  the fixed sentence when the call fails.
\<close>

theorem generateStudyGuide_never_throws:
  "generateStudyGuide generateContent toString tp sc =
     Inr (case generateContent (guide_prompt toString tp sc) of
            Inr response \<Rightarrow> response
          | Inl e \<Rightarrow> js ''Unable to generate study guide at this time.'')"
  by (simp add: generateStudyGuide_def try_catch_def split: sum.splits)

section \<open>The generator: the extracted span\<close>

text \<open>
  Claim C9, amended: the match is the span from the first opening bracket of the response
  to the last closing bracket after it. So an array is extracted intact, and the generator
  returns its parse, when the text before it has no opening bracket and the text after it
  no closing bracket; every match has this form; and a response without an opening or
  without a closing bracket has no match and gets the question of the safety net.
\<close>

theorem json_extraction_span:
  "(0x5B \<notin> set pre \<and> 0x5D \<notin> set suf \<longrightarrow>
      match_json_array (pre @ 0x5B # mid @ 0x5D # suf) = Some (0x5B # mid @ [0x5D])
      \<and> (\<forall>v. JSON_parse (0x5B # mid @ [0x5D]) = Inr v \<longrightarrow>
             generateQuiz (\<lambda>prompt. Inr (pre @ 0x5B # mid @ 0x5D # suf)) tp difficulty = Inr v))
   \<and> (match_json_array rsp = Some m \<longrightarrow>
        (\<exists>pre mid suf. rsp = pre @ 0x5B # mid @ 0x5D # suf
           \<and> 0x5B \<notin> set pre \<and> 0x5D \<notin> set suf \<and> m = 0x5B # mid @ [0x5D]))
   \<and> (0x5B \<notin> set rsp' \<or> 0x5D \<notin> set rsp' \<longrightarrow>
        match_json_array rsp' = None
        \<and> generateQuiz (\<lambda>prompt. Inr rsp') tp difficulty = Inr (JArray [fallback_question]))"
proof (intro conjI impI allI)
  assume a: "0x5B \<notin> set pre \<and> 0x5D \<notin> set suf"
  then show s: "match_json_array (pre @ 0x5B # mid @ 0x5D # suf) = Some (0x5B # mid @ [0x5D])"
    by (simp add: match_json_array_span)
  fix v assume "JSON_parse (0x5B # mid @ [0x5D]) = Inr v"
  then show "generateQuiz (\<lambda>prompt. Inr (pre @ 0x5B # mid @ 0x5D # suf)) tp difficulty = Inr v"
    by (simp add: generateQuiz_cases s)
next
  assume "match_json_array rsp = Some m"
  then show "\<exists>pre mid suf. rsp = pre @ 0x5B # mid @ 0x5D # suf
           \<and> 0x5B \<notin> set pre \<and> 0x5D \<notin> set suf \<and> m = 0x5B # mid @ [0x5D]"
    by (rule match_json_array_Some)
next
  assume a: "0x5B \<notin> set rsp' \<or> 0x5D \<notin> set rsp'"
  then show n: "match_json_array rsp' = None" by (rule match_json_array_None)
  show "generateQuiz (\<lambda>prompt. Inr rsp') tp difficulty = Inr (JArray [fallback_question])"
    by (simp add: generateQuiz_cases n)
qed

lemma parse_one_two: "JSON_parse (js ''[1, 2]'') = Inr (JArray [JNumber (js ''1''), JNumber (js ''2'')])"
  by code_simp

text \<open>Claim C9, an instance: an array between a sentence and a greeting.\<close>

theorem json_extraction_span_witness:
  "0x5B \<notin> set (js ''Here is your quiz: '') \<and> 0x5D \<notin> set (js '' Enjoy!'')
   \<and> match_json_array (js ''Here is your quiz: [1, 2] Enjoy!'') = Some (js ''[1, 2]'')
   \<and> generateQuiz (\<lambda>prompt. Inr (js ''Here is your quiz: [1, 2] Enjoy!'')) (js ''Rivers'') (js ''Easy'')
       = Inr (JArray [JNumber (js ''1''), JNumber (js ''2'')])
   \<and> 0x5B \<notin> set (js ''I cannot help with that.'')
   \<and> match_json_array (js ''I cannot help with that.'') = None
   \<and> generateQuiz (\<lambda>prompt. Inr (js ''I cannot help with that.'')) (js ''Rivers'') (js ''Easy'')
       = Inr (JArray [fallback_question])"
proof -
  have h1: "0x5B \<notin> set (js ''Here is your quiz: '')" by (simp add: js_def)
  have h2: "0x5D \<notin> set (js '' Enjoy!'')" by (simp add: js_def)
  have h3: "0x5B \<notin> set (js ''I cannot help with that.'')" by (simp add: js_def)
  have e1: "js ''Here is your quiz: '' @ 0x5B # js ''1, 2'' @ 0x5D # js '' Enjoy!''
            = js ''Here is your quiz: [1, 2] Enjoy!''" by (simp add: js_def)
  have e2: "0x5B # js ''1, 2'' @ [0x5D] = js ''[1, 2]''" by (simp add: js_def)
  note T = json_extraction_span[of "js ''Here is your quiz: ''" "js '' Enjoy!''" "js ''1, 2''"
      "js ''Rivers''" "js ''Easy''" "js ''[1]''" "js ''[1]''" "js ''I cannot help with that.''"]
  from T h1 h2 have
    "match_json_array (js ''Here is your quiz: '' @ 0x5B # js ''1, 2'' @ 0x5D # js '' Enjoy!'')
       = Some (0x5B # js ''1, 2'' @ [0x5D])"
    and "\<forall>v. JSON_parse (0x5B # js ''1, 2'' @ [0x5D]) = Inr v \<longrightarrow>
       generateQuiz (\<lambda>prompt. Inr (js ''Here is your quiz: '' @ 0x5B # js ''1, 2'' @ 0x5D # js '' Enjoy!''))
         (js ''Rivers'') (js ''Easy'') = Inr v"
    by blast+
  then have a: "match_json_array (js ''Here is your quiz: [1, 2] Enjoy!'') = Some (js ''[1, 2]'')"
    and b: "generateQuiz (\<lambda>prompt. Inr (js ''Here is your quiz: [1, 2] Enjoy!'')) (js ''Rivers'') (js ''Easy'')
       = Inr (JArray [JNumber (js ''1''), JNumber (js ''2'')])"
    using parse_one_two unfolding e1 e2 by blast+
  from T h3 have c: "match_json_array (js ''I cannot help with that.'') = None"
    and d: "generateQuiz (\<lambda>prompt. Inr (js ''I cannot help with that.'')) (js ''Rivers'') (js ''Easy'')
       = Inr (JArray [fallback_question])"
    by blast+
  from h1 h2 h3 a b c d show ?thesis by blast
qed

lemma match_bracketed_prefix:
  "match_json_array (js ''Topic [math]: [1]'') = Some (js ''[math]: [1]'')"
  by code_simp

lemma parse_one: "JSON_parse (js ''[1]'') = Inr (JArray [JNumber (js ''1'')])"
  by code_simp

lemma parse_bracketed_prefix: "JSON_parse (js ''[math]: [1]'') = Inl SyntaxError"
  by code_simp

text \<open>
  Claim C9 as stated, with arbitrary text around the array, fails: a bracket in the prefix
  starts the match early, the span is not the array, and it does not parse.
\<close>

theorem json_extraction_bracket_in_prefix:
  "JSON_parse (js ''[1]'') = Inr (JArray [JNumber (js ''1'')])
   \<and> js ''Topic [math]: [1]'' = js ''Topic [math]: '' @ js ''[1]'' @ []
   \<and> match_json_array (js ''Topic [math]: [1]'') = Some (js ''[math]: [1]'')
   \<and> js ''[math]: [1]'' \<noteq> js ''[1]''
   \<and> generateQuiz (\<lambda>prompt. Inr (js ''Topic [math]: [1]'')) (js ''Rivers'') (js ''Easy'')
       = Inr (JArray [fallback_question])"
  by (simp add: parse_one match_bracketed_prefix parse_bracketed_prefix generateQuiz_cases)
    (simp add: js_def)

section \<open>The quiz session: handlers and invariant\<close>


lemma handleOptionClick_open:
  assumes "\<not> isAnswered g" and "currentQuestion qs g = Some q"
  shows "handleOptionClick qs opt u g =
     Inr (g\<lparr>selectedOption_g := Some opt,
            isAnswered := True,
            streak := (if opt = correctAnswer q then streak g + 1 else 0),
            answers := answers g @
              [\<lparr>questionId = id_q q,
                questionText = question q,
                selectedOption = (if u then opt else js ''Time Out''),
                correctAnswer_a = correctAnswer q,
                isCorrect = (opt = correctAnswer q)\<rparr>]\<rparr>)"
  using assms by (simp add: handleOptionClick_def)











text \<open>Over an empty list of questions the quiz cannot render.\<close>

lemma start_session_empty_crashes:
  "start_session (app\<lparr>appState := QUIZ, questions := []\<rparr>) = Crashed"
  by (simp add: start_session_def render_def currentQuestion_def)

section \<open>The example sessions, step by step\<close>


lemma example_questions: "questions example_app = [question_one, question_two]"
  by (simp add: example_app_def)

lemma example_click_handler:
  "handleOptionClick [question_one, question_two] (js ''Seine'') True (init_QuizGame (Some 2))
     = Inr answered_first"
  by (simp add: handleOptionClick_def currentQuestion_def init_QuizGame_def question_one_def
      answered_first_def answer_one_def)

lemma example_timeout_handler:
  "handleTimeOut [question_one, question_two] (init_QuizGame (Some 2)) = Inr first_timed_out"
  by (simp add: handleTimeOut_def handleOptionClick_def currentQuestion_def init_QuizGame_def
      question_one_def first_timed_out_def js_def)


text \<open>
  The quiz of three questions, step by step: the first card's advance button is clicked
  once as the current card and once more as the card that leaves.
\<close>

lemma three_start:
  "start_session three_app
     = Live three_app [question_one, question_two, question_three] None (init_QuizGame None)"
  by (simp add: start_session_def render_def currentQuestion_def init_QuizGame_def three_app_def)

lemma three_click_first:
  "step (Live three_app [question_one, question_two, question_three] None (init_QuizGame None))
        (ClickOption 0)
     = Live three_app [question_one, question_two, question_three] None three_answered_first"
  by (simp add: after_handler_def render_def currentQuestion_def init_QuizGame_def
      handleOptionClick_def timer_effect_def question_one_def three_answered_first_def
      answer_one_def)

lemma three_next:
  "step (Live app [question_one, question_two, question_three] None three_answered_first)
        (ClickNext n d)
     = Live app [question_one, question_two, question_three] None three_second_open"
  by (simp add: advance_def handleNext_def render_def currentQuestion_def timer_effect_def
      three_answered_first_def three_second_open_def)

lemma three_stale_next:
  "step (Live app [question_one, question_two, question_three] None three_second_open)
        (ClickStaleNext three_answered_first n d)
     = Live app [question_one, question_two, question_three] None three_third_open"
  by (simp add: advance_def handleNext_def render_def currentQuestion_def timer_effect_def
      three_answered_first_def three_second_open_def three_third_open_def)

lemma three_click_third:
  "step (Live app [question_one, question_two, question_three] None three_third_open)
        (ClickOption 1)
     = Live app [question_one, question_two, question_three] None three_answered_third"
  by (simp add: after_handler_def render_def currentQuestion_def handleOptionClick_def
      timer_effect_def question_three_def three_third_open_def three_answered_third_def
      answer_three_def)

lemma three_finish:
  "step (Live app [question_one, question_two, question_three] None three_answered_third)
        (ClickNext n d)
     = Live (onComplete [question_one, question_two, question_three] n d
               [answer_one, answer_three] app)
         [question_one, question_two, question_three] None three_answered_third"
  by (simp add: advance_def handleNext_def three_answered_third_def)

text \<open>
  On the quiz of two questions the same second click moves the index past the last
  question, and the render throws.
\<close>

lemma two_stale_next_crashes:
  "step (step (Live app [question_one, question_two] (Some 2) answered_first) (ClickNext n d))
        (ClickStaleNext answered_first n' d')
     = Crashed"
  by (simp add: advance_def handleNext_def render_def currentQuestion_def timer_effect_def
      answered_first_def)

section \<open>The quiz session: answers and questions\<close>




text \<open>
  Claim C4: when a session is complete there is one answer per question, the i-th answer
  carrying the identifier of the i-th question. \<open>handleNext\<close> has no guard, and the card
  that leaves after an advance keeps its advance button for the 0.3 seconds of its exit
  animation. A second click on it moves on once more, past a question that is never
  shown: the quiz of three questions completes with two answers, and the second answer
  carries the identifier of the third question.
\<close>

theorem stale_advance_drops_an_answer:
  "run (start_session three_app) skipping_events
     = Live (onComplete [question_one, question_two, question_three]
               (js ''1700000003000'') (js ''2023-11-14T22:13:23.000Z'')
               [answer_one, answer_three] three_app)
         [question_one, question_two, question_three] None three_answered_third
   \<and> appState (onComplete [question_one, question_two, question_three]
               (js ''1700000003000'') (js ''2023-11-14T22:13:23.000Z'')
               [answer_one, answer_three] three_app) = RESULTS
   \<and> map questionId (userAnswers (onComplete [question_one, question_two, question_three]
               (js ''1700000003000'') (js ''2023-11-14T22:13:23.000Z'')
               [answer_one, answer_three] three_app)) = [1, 3]
   \<and> map id_q (questions (onComplete [question_one, question_two, question_three]
               (js ''1700000003000'') (js ''2023-11-14T22:13:23.000Z'')
               [answer_one, answer_three] three_app)) = [1, 2, 3]"
proof -
  have r: "run (start_session three_app) skipping_events
     = Live (onComplete [question_one, question_two, question_three]
               (js ''1700000003000'') (js ''2023-11-14T22:13:23.000Z'')
               [answer_one, answer_three] three_app)
         [question_one, question_two, question_three] None three_answered_third"
    by (simp add: run_def skipping_events_def three_start three_click_first three_next
        three_stale_next three_click_third three_click_third[unfolded One_nat_def]
        three_finish del: step.simps)
  have f: "appState (onComplete [question_one, question_two, question_three]
               (js ''1700000003000'') (js ''2023-11-14T22:13:23.000Z'')
               [answer_one, answer_three] three_app) = RESULTS"
    "map questionId (userAnswers (onComplete [question_one, question_two, question_three]
               (js ''1700000003000'') (js ''2023-11-14T22:13:23.000Z'')
               [answer_one, answer_three] three_app)) = [1, 3]"
    "map id_q (questions (onComplete [question_one, question_two, question_three]
               (js ''1700000003000'') (js ''2023-11-14T22:13:23.000Z'')
               [answer_one, answer_three] three_app)) = [1, 2, 3]"
    by (simp_all add: onComplete_def handleQuizComplete_def answer_one_def answer_three_def
        three_app_def question_one_def question_two_def question_three_def)
  from r f show ?thesis by blast
qed

section \<open>The quiz session: advancing\<close>

text \<open>
  Claim C6: advancing more than once from an answered question neither repeats nor skips
  a question, the repeated click being without effect. The advance button of the card
  that leaves still calls \<open>handleNext\<close>, which has no guard (\<open>handleOptionClick\<close> has
  one): from the first of three questions the second click moves on to the third, and
  the second question is skipped; from the first of two questions it moves the index
  past the end, and the render throws; and on the last question, which stays answered
  while the quiz leaves the page, the second click calls \<open>onComplete\<close> again, and the
  history gets a second record of the same quiz.
\<close>

theorem second_advance_skips_or_repeats:
  "run (Live three_app [question_one, question_two, question_three] None three_answered_first)
       [ClickNext (js ''1700000000000'') (js ''2023-11-14T22:13:20.000Z''),
        ClickStaleNext three_answered_first (js ''1700000000100'') (js ''2023-11-14T22:13:20.100Z'')]
     = Live three_app [question_one, question_two, question_three] None three_third_open
   \<and> currentIndex three_answered_first = 0
   \<and> currentIndex three_third_open = 2
   \<and> answers three_third_open = answers three_answered_first
   \<and> run (Live example_app [question_one, question_two] (Some 2) answered_first)
       [ClickNext (js ''1700000000000'') (js ''2023-11-14T22:13:20.000Z''),
        ClickStaleNext answered_first (js ''1700000000100'') (js ''2023-11-14T22:13:20.100Z'')]
     = Crashed
   \<and> run (Live three_app [question_one, question_two, question_three] None three_answered_third)
       [ClickNext (js ''1700000003000'') (js ''2023-11-14T22:13:23.000Z''),
        ClickNext (js ''1700000003100'') (js ''2023-11-14T22:13:23.100Z'')]
     = Live (onComplete [question_one, question_two, question_three]
               (js ''1700000003100'') (js ''2023-11-14T22:13:23.100Z'') [answer_one, answer_three]
               (onComplete [question_one, question_two, question_three]
                  (js ''1700000003000'') (js ''2023-11-14T22:13:23.000Z'') [answer_one, answer_three]
                  three_app))
         [question_one, question_two, question_three] None three_answered_third
   \<and> map id_s (savedQuizzes
         (onComplete [question_one, question_two, question_three]
               (js ''1700000003100'') (js ''2023-11-14T22:13:23.100Z'') [answer_one, answer_three]
               (onComplete [question_one, question_two, question_three]
                  (js ''1700000003000'') (js ''2023-11-14T22:13:23.000Z'') [answer_one, answer_three]
                  three_app)))
       = [js ''1700000003100'', js ''1700000003000'']"
proof -
  have 1: "run (Live three_app [question_one, question_two, question_three] None three_answered_first)
       [ClickNext (js ''1700000000000'') (js ''2023-11-14T22:13:20.000Z''),
        ClickStaleNext three_answered_first (js ''1700000000100'') (js ''2023-11-14T22:13:20.100Z'')]
     = Live three_app [question_one, question_two, question_three] None three_third_open"
    by (simp add: run_def three_next three_stale_next del: step.simps)
  have 2: "currentIndex three_answered_first = 0" "currentIndex three_third_open = 2"
    "answers three_third_open = answers three_answered_first"
    by (simp_all add: three_answered_first_def three_third_open_def)
  have 3: "run (Live example_app [question_one, question_two] (Some 2) answered_first)
       [ClickNext (js ''1700000000000'') (js ''2023-11-14T22:13:20.000Z''),
        ClickStaleNext answered_first (js ''1700000000100'') (js ''2023-11-14T22:13:20.100Z'')]
     = Crashed"
    by (simp add: run_def two_stale_next_crashes del: step.simps)
  have 4: "run (Live three_app [question_one, question_two, question_three] None three_answered_third)
       [ClickNext (js ''1700000003000'') (js ''2023-11-14T22:13:23.000Z''),
        ClickNext (js ''1700000003100'') (js ''2023-11-14T22:13:23.100Z'')]
     = Live (onComplete [question_one, question_two, question_three]
               (js ''1700000003100'') (js ''2023-11-14T22:13:23.100Z'') [answer_one, answer_three]
               (onComplete [question_one, question_two, question_three]
                  (js ''1700000003000'') (js ''2023-11-14T22:13:23.000Z'') [answer_one, answer_three]
                  three_app))
         [question_one, question_two, question_three] None three_answered_third"
    by (simp add: run_def three_finish del: step.simps)
  have 5: "map id_s (savedQuizzes
         (onComplete [question_one, question_two, question_three]
               (js ''1700000003100'') (js ''2023-11-14T22:13:23.100Z'') [answer_one, answer_three]
               (onComplete [question_one, question_two, question_three]
                  (js ''1700000003000'') (js ''2023-11-14T22:13:23.000Z'') [answer_one, answer_three]
                  three_app)))
       = [js ''1700000003100'', js ''1700000003000'']"
    by (simp add: onComplete_def handleQuizComplete_def three_app_def)
  from 1 2 3 4 5 show ?thesis by blast
qed

section \<open>The quiz session: what an answer records\<close>

text \<open>
  Claim C7, amended: on an open question, the answer that a timeout records carries the
  fixed text \<open>Time Out\<close> as its selection and is correct exactly when the correct answer
  of the question is the string \<open>__TIMEOUT__\<close> that the timeout passes for the option;
  so it is incorrect for every question whose correct answer is another string, and its
  selection differs from every option of a question that has no option \<open>Time Out\<close>. The
  answer that a click records carries the clicked option and is correct exactly when that
  option equals the correct answer.
\<close>

theorem timeout_and_click_answers:
  assumes "\<not> isAnswered g" and "currentQuestion qs g = Some q"
  shows "(\<exists>g'. handleTimeOut qs g = Inr g'
            \<and> answers g' = answers g @
                [\<lparr>questionId = id_q q, questionText = question q,
                  selectedOption = js ''Time Out'', correctAnswer_a = correctAnswer q,
                  isCorrect = (correctAnswer q = js ''__TIMEOUT__'')\<rparr>])
       \<and> (\<exists>g'. handleOptionClick qs opt True g = Inr g'
            \<and> answers g' = answers g @
                [\<lparr>questionId = id_q q, questionText = question q,
                  selectedOption = opt, correctAnswer_a = correctAnswer q,
                  isCorrect = (opt = correctAnswer q)\<rparr>])"
  using assms by (auto simp: handleTimeOut_def handleOptionClick_def)

text \<open>Claim C7, an instance: the first question of the example, timed out and clicked.\<close>

theorem timeout_and_click_answers_witness:
  "\<not> isAnswered (init_QuizGame (Some 2))
   \<and> currentQuestion [question_one, question_two] (init_QuizGame (Some 2)) = Some question_one
   \<and> handleTimeOut [question_one, question_two] (init_QuizGame (Some 2)) = Inr first_timed_out
   \<and> map isCorrect (answers first_timed_out) = [False]
   \<and> map selectedOption (answers first_timed_out) = [js ''Time Out'']
   \<and> handleOptionClick [question_one, question_two] (js ''Seine'') True (init_QuizGame (Some 2))
       = Inr answered_first
   \<and> map isCorrect (answers answered_first) = [True]
   \<and> map selectedOption (answers answered_first) = [js ''Seine'']"
proof -
  have h1: "\<not> isAnswered (init_QuizGame (Some 2))" by (simp add: init_QuizGame_def)
  have h2: "currentQuestion [question_one, question_two] (init_QuizGame (Some 2)) = Some question_one"
    by (simp add: currentQuestion_def init_QuizGame_def)
  have e: "correctAnswer question_one \<noteq> js ''__TIMEOUT__''" "js ''Seine'' = correctAnswer question_one"
    by (simp_all add: question_one_def js_def)
  from timeout_and_click_answers[OF h1 h2, of "js ''Seine''"] example_timeout_handler example_click_handler e
  have "answers first_timed_out = answers (init_QuizGame (Some 2)) @
                [\<lparr>questionId = id_q question_one, questionText = question question_one,
                  selectedOption = js ''Time Out'', correctAnswer_a = correctAnswer question_one,
                  isCorrect = False\<rparr>]"
    and "answers answered_first = answers (init_QuizGame (Some 2)) @
                [\<lparr>questionId = id_q question_one, questionText = question question_one,
                  selectedOption = js ''Seine'', correctAnswer_a = correctAnswer question_one,
                  isCorrect = True\<rparr>]"
    by auto
  then have "map isCorrect (answers first_timed_out) = [False]"
    "map selectedOption (answers first_timed_out) = [js ''Time Out'']"
    "map isCorrect (answers answered_first) = [True]"
    "map selectedOption (answers answered_first) = [js ''Seine'']"
    by (simp_all add: init_QuizGame_def)
  with h1 h2 example_timeout_handler example_click_handler show ?thesis by blast
qed

text \<open>
  Claim C7 as stated fails on questions whose texts meet the two strings: a timeout on a
  question whose correct answer is \<open>__TIMEOUT__\<close> is recorded as correct, and on a question
  with the option \<open>Time Out\<close> the recorded selection is the text of that option.
\<close>

theorem timeout_meets_question_text:
  "handleTimeOut [question_sentinel] (init_QuizGame (Some 2)) =
     Inr \<lparr>currentIndex = 0, selectedOption_g = Some (js ''__TIMEOUT__''), isAnswered = True,
          answers =
            [\<lparr>questionId = 4, questionText = js ''Which identifier marks an expired timer?'',
              selectedOption = js ''Time Out'', correctAnswer_a = js ''__TIMEOUT__'',
              isCorrect = True\<rparr>],
          timeLeft = 2, streak = 1\<rparr>
   \<and> handleTimeOut [question_time_out] (init_QuizGame (Some 2)) =
     Inr \<lparr>currentIndex = 0, selectedOption_g = Some (js ''__TIMEOUT__''), isAnswered = True,
          answers =
            [\<lparr>questionId = 3, questionText = js ''What does a coach call to stop the clock?'',
              selectedOption = js ''Time Out'', correctAnswer_a = js ''Time Out'',
              isCorrect = False\<rparr>],
          timeLeft = 2, streak = 0\<rparr>
   \<and> js ''Time Out'' \<in> set (options question_time_out)"
  by (simp add: handleTimeOut_def handleOptionClick_def currentQuestion_def init_QuizGame_def
      question_sentinel_def question_time_out_def js_def)

section \<open>The history: deletion\<close>

lemma filter_out_absent:
  "i \<notin> f ` set xs \<Longrightarrow> filter (\<lambda>q. f q \<noteq> i) xs = xs"
  by (induction xs) auto

lemma filter_out_distinct:
  assumes "distinct (map f xs)" and "r \<in> set xs"
  shows "\<exists>ys zs. xs = ys @ r # zs \<and> filter (\<lambda>q. f q \<noteq> f r) xs = ys @ zs"
proof -
  from assms(2) obtain ys zs where xs: "xs = ys @ r # zs" by (auto dest: split_list)
  with assms(1) have "f r \<notin> f ` set ys" and "f r \<notin> f ` set zs" by auto
  then have "filter (\<lambda>q. f q \<noteq> f r) ys = ys" and "filter (\<lambda>q. f q \<noteq> f r) zs = zs"
    by (simp_all add: filter_out_absent)
  with xs show ?thesis by auto
qed

text \<open>
  A list is determined by being a subsequence of another and having, as a multiset, exactly
  the elements of the other that satisfy a predicate: it is the other list filtered.
\<close>

lemma subseq_mset_le: "subseq ys xs \<Longrightarrow> mset ys \<subseteq># mset xs"
proof (induction rule: list_emb.induct)
  case (list_emb_Nil ys)
  then show ?case by simp
next
  case (list_emb_Cons xs ys y)
  then show ?case by (auto simp: subseteq_mset_def le_SucI)
next
  case (list_emb_Cons2 x y xs ys)
  then show ?case by simp
qed

lemma subseq_with_filtered_mset_is_filter:
  "subseq ys xs \<Longrightarrow> mset ys = filter_mset P (mset xs) \<Longrightarrow> ys = filter P xs"
proof (induction xs arbitrary: ys)
  case Nil
  then show ?case by simp
next
  case (Cons x xs)
  show ?case
  proof (cases "P x")
    case True
    have skip: "\<not> subseq ys xs"
    proof
      assume "subseq ys xs"
      then have "mset ys \<subseteq># mset xs" by (rule subseq_mset_le)
      then have "count (mset ys) x \<le> count (mset xs) x" by (rule mset_subset_eq_count)
      moreover have "count (mset ys) x = Suc (count (mset xs) x)"
        using Cons.prems(2) True by simp
      ultimately show False by simp
    qed
    obtain y ys' where ys: "ys = y # ys'"
      using skip by (cases ys) auto
    have "y = x"
    proof (rule ccontr)
      assume "y \<noteq> x"
      with Cons.prems(1) ys have "subseq ys xs" by (simp add: subseq_Cons2_iff)
      with skip show False by simp
    qed
    then have s: "subseq ys' xs" using Cons.prems(1) ys by (simp add: subseq_Cons2_iff)
    have "mset ys' = filter_mset P (mset xs)"
      using Cons.prems(2) True ys \<open>y = x\<close> by simp
    from Cons.IH[OF s this] show ?thesis using True ys \<open>y = x\<close> by simp
  next
    case False
    have m: "mset ys = filter_mset P (mset xs)" using Cons.prems(2) False by simp
    have "x \<notin># mset ys" using m False by simp
    then have "x \<notin> set ys" by simp
    then have "subseq ys xs"
    proof (cases ys)
      case Nil
      then show ?thesis by simp
    next
      case inner: (Cons y ys')
      assume "x \<notin> set ys"
      then have "y \<noteq> x" using inner by auto
      with Cons.prems(1) show ?thesis unfolding inner by (simp add: subseq_Cons2_iff)
    qed
    from Cons.IH[OF this m] show ?thesis using False by simp
  qed
qed

text \<open>
  Claim C8, amended: deleting an identifier that no record carries leaves the shell as it
  is; deleting an identifier removes every record that carries it and keeps all the
  others, each as often as it occurs and in their order, and changes nothing else in the
  shell; when the identifiers of the history are distinct, what is removed is exactly one
  record, cut out of the list.
\<close>

theorem delete_by_identifier:
  "(i \<notin> id_s ` set (savedQuizzes app) \<longrightarrow> handleDeleteQuiz i app = app)
   \<and> (distinct (map id_s (savedQuizzes app)) \<and> r \<in> set (savedQuizzes app) \<and> id_s r = i \<longrightarrow>
        (\<exists>before after. savedQuizzes app = before @ r # after
           \<and> savedQuizzes (handleDeleteQuiz i app) = before @ after))
   \<and> set (savedQuizzes (handleDeleteQuiz i app)) = {q \<in> set (savedQuizzes app). id_s q \<noteq> i}
   \<and> subseq (savedQuizzes (handleDeleteQuiz i app)) (savedQuizzes app)
   \<and> mset (savedQuizzes (handleDeleteQuiz i app))
       = filter_mset (\<lambda>q. id_s q \<noteq> i) (mset (savedQuizzes app))
   \<and> handleDeleteQuiz i app = app\<lparr>savedQuizzes := savedQuizzes (handleDeleteQuiz i app)\<rparr>"
proof (intro conjI impI)
  assume "i \<notin> id_s ` set (savedQuizzes app)"
  then show "handleDeleteQuiz i app = app"
    by (simp add: handleDeleteQuiz_def filter_out_absent)
next
  assume a: "distinct (map id_s (savedQuizzes app)) \<and> r \<in> set (savedQuizzes app) \<and> id_s r = i"
  with filter_out_distinct[of id_s "savedQuizzes app" r]
  show "\<exists>before after. savedQuizzes app = before @ r # after
           \<and> savedQuizzes (handleDeleteQuiz i app) = before @ after"
    by (auto simp: handleDeleteQuiz_def)
next
  show "set (savedQuizzes (handleDeleteQuiz i app)) = {q \<in> set (savedQuizzes app). id_s q \<noteq> i}"
    by (auto simp: handleDeleteQuiz_def)
next
  show "subseq (savedQuizzes (handleDeleteQuiz i app)) (savedQuizzes app)"
    by (simp add: handleDeleteQuiz_def)
next
  show "mset (savedQuizzes (handleDeleteQuiz i app))
       = filter_mset (\<lambda>q. id_s q \<noteq> i) (mset (savedQuizzes app))"
    by (simp add: handleDeleteQuiz_def)
next
  show "handleDeleteQuiz i app = app\<lparr>savedQuizzes := savedQuizzes (handleDeleteQuiz i app)\<rparr>"
    by (simp add: handleDeleteQuiz_def)
qed

text \<open>
  The subsequence and the multiset leave no choice: a list that is a subsequence of the
  history and has, as a multiset, its records of another identifier is the history that
  \<open>handleDeleteQuiz\<close> leaves.
\<close>

lemma delete_result_unique:
  assumes "subseq l (savedQuizzes app)"
    and "mset l = filter_mset (\<lambda>q. id_s q \<noteq> i) (mset (savedQuizzes app))"
  shows "l = savedQuizzes (handleDeleteQuiz i app)"
  using subseq_with_filtered_mset_is_filter[OF assms] by (simp add: handleDeleteQuiz_def)

lemma saved_ids:
  "id_s saved_first = js ''1700000000000''" "id_s saved_second = js ''1700000600000''"
  "id_s saved_twin = js ''1700000000000''"
  by (simp_all add: saved_first_def saved_second_def saved_twin_def)

lemma saved_ids_differ: "js ''1700000000000'' \<noteq> js ''1700000600000''"
  "js ''1700000600000'' \<noteq> js ''1700000000000''"
  "js ''1600000000000'' \<noteq> js ''1700000600000''" "js ''1600000000000'' \<noteq> js ''1700000000000''"
  by (simp_all add: js_def)

text \<open>Claim C8, an instance: a history of two records, an absent and a present identifier.\<close>

theorem delete_by_identifier_witness:
  "js ''1600000000000'' \<notin> id_s ` set (savedQuizzes (dashboard_app [saved_second, saved_first]))
   \<and> handleDeleteQuiz (js ''1600000000000'') (dashboard_app [saved_second, saved_first])
       = dashboard_app [saved_second, saved_first]
   \<and> distinct (map id_s (savedQuizzes (dashboard_app [saved_second, saved_first])))
   \<and> saved_second \<in> set (savedQuizzes (dashboard_app [saved_second, saved_first]))
   \<and> savedQuizzes (handleDeleteQuiz (js ''1700000600000'') (dashboard_app [saved_second, saved_first]))
       = [saved_first]"
proof -
  let ?app = "dashboard_app [saved_second, saved_first]"
  have s: "savedQuizzes ?app = [saved_second, saved_first]" by (simp add: dashboard_app_def)
  have h1: "js ''1600000000000'' \<notin> id_s ` set (savedQuizzes ?app)"
    using saved_ids_differ by (simp add: s saved_ids)
  have h2: "distinct (map id_s (savedQuizzes ?app)) \<and> saved_second \<in> set (savedQuizzes ?app)
            \<and> id_s saved_second = js ''1700000600000''"
    using saved_ids_differ by (simp add: s saved_ids)
  from delete_by_identifier[of "js ''1600000000000''" ?app saved_second] h1
  have a: "handleDeleteQuiz (js ''1600000000000'') ?app = ?app" by blast
  from delete_by_identifier[of "js ''1700000600000''" ?app saved_second] h2
  obtain before after where b: "savedQuizzes ?app = before @ saved_second # after"
    and c: "savedQuizzes (handleDeleteQuiz (js ''1700000600000'') ?app) = before @ after"
    by blast
  have ne: "saved_second \<noteq> saved_first"
    using saved_ids saved_ids_differ by metis
  from b s have "before = [] \<and> after = [saved_first]"
    using ne by (cases before) (auto simp: Cons_eq_append_conv)
  with c have d: "savedQuizzes (handleDeleteQuiz (js ''1700000600000'') ?app) = [saved_first]" by simp
  from h1 a h2 d show ?thesis by blast
qed

text \<open>
  Claim C8 as stated, for every history, fails when two records share an identifier:
  deleting it removes both.
\<close>

theorem delete_removes_both_twins:
  "saved_first \<noteq> saved_twin
   \<and> savedQuizzes (dashboard_app [saved_twin, saved_second, saved_first])
       = [saved_twin, saved_second, saved_first]
   \<and> savedQuizzes (handleDeleteQuiz (js ''1700000000000'')
         (dashboard_app [saved_twin, saved_second, saved_first])) = [saved_second]"
proof -
  have "topic saved_first \<noteq> topic saved_twin"
    by (simp add: saved_first_def saved_twin_def js_def)
  then have "saved_first \<noteq> saved_twin" by auto
  then show ?thesis
    using saved_ids_differ
    by (simp add: handleDeleteQuiz_def dashboard_app_def saved_ids)
qed

section \<open>The score: how far the double arithmetic is from the exact quotient\<close>

text \<open>
  The bit length brackets a positive number between two powers of two; scaling keeps the
  value of the fraction; rounding to the nearest integer moves it by at most one half.
\<close>

declare bitlen.simps [simp del]

lemma bitlen_pos: "0 < n \<Longrightarrow> 0 < bitlen n"
  by (subst bitlen.simps) simp

lemma bitlen_bounds: "0 < n \<Longrightarrow> 2 ^ (bitlen n - 1) \<le> n \<and> n < 2 ^ bitlen n"
proof (induction n rule: bitlen.induct)
  case (1 n)
  have b: "bitlen n = Suc (bitlen (n div 2))" using "1.prems" by (subst bitlen.simps) simp
  show ?case
  proof (cases "n div 2 = 0")
    case True
    then have "n = 1" using "1.prems" by presburger
    then show ?thesis using b True by (simp add: bitlen.simps[of 0])
  next
    case False
    then have h: "0 < n div 2" by simp
    from "1.IH"[OF _ h] "1.prems" have
      lo: "2 ^ (bitlen (n div 2) - 1) \<le> n div 2" and hi: "n div 2 < 2 ^ bitlen (n div 2)" by simp_all
    obtain k where k: "bitlen (n div 2) = Suc k" using bitlen_pos[OF h] by (cases "bitlen (n div 2)") auto
    have "2 ^ (bitlen n - 1) = 2 * 2 ^ k" using b k by simp
    also have "\<dots> \<le> 2 * (n div 2)" using lo k by simp
    also have "\<dots> \<le> n" by simp
    finally have 1: "2 ^ (bitlen n - 1) \<le> n" .
    have "n < 2 * (n div 2) + 2" by presburger
    also have "\<dots> \<le> 2 * 2 ^ bitlen (n div 2)" using hi by simp
    also have "\<dots> = 2 ^ bitlen n" using b by simp
    finally have 2: "n < 2 ^ bitlen n" .
    from 1 2 show ?thesis by simp
  qed
qed

lemma scale_pos: "0 < q \<Longrightarrow> 0 < snd (scale p q e)"
  by (simp add: scale_def)

lemma scale_pos_fst: "0 < p \<Longrightarrow> 0 < fst (scale p q e)"
  by (simp add: scale_def)

lemma scale_val:
  assumes "0 < q"
  shows "real_of_int (fst (scale p q e)) / real_of_int (snd (scale p q e))
           = (real_of_int p / real_of_int q) / 2 powi e"
proof (cases "0 \<le> e")
  case True
  then have "(2::real) powi e = 2 ^ nat e" by (simp add: power_int_def)
  then show ?thesis using True by (simp add: scale_def)
next
  case False
  then have pw: "(2::real) powi e = 1 / 2 ^ nat (- e)"
    by (simp add: power_int_def power_one_over)
  show ?thesis using False unfolding pw by (simp add: scale_def)
qed

lemma round_half_even_near:
  assumes "0 < snd PQ"
  shows "\<bar>real_of_int (round_half_even PQ) - real_of_int (fst PQ) / real_of_int (snd PQ)\<bar> \<le> 1 / 2"
proof -
  define P where "P = fst PQ"
  define Q where "Q = snd PQ"
  define m where "m = P div Q"
  define r where "r = P mod Q"
  have Q: "0 < Q" using assms by (simp add: Q_def)
  have r: "0 \<le> r" "r < Q" using Q by (simp_all add: r_def)
  have "P = Q * m + r" by (simp add: m_def r_def)
  then have "real_of_int P = real_of_int Q * real_of_int m + real_of_int r" 
    by (metis of_int_add of_int_mult)
  then have x: "real_of_int P / real_of_int Q = real_of_int m + real_of_int r / real_of_int Q"
    using Q by (simp add: field_simps)
  have f: "0 \<le> real_of_int r / real_of_int Q" "real_of_int r / real_of_int Q < 1"
    using r Q by simp_all
  consider (lo) "2 * r < Q" | (hi) "Q < 2 * r" | (tie) "2 * r = Q" by linarith
  then show ?thesis
  proof cases
    case lo
    then have "round_half_even PQ = m"
      by (simp add: round_half_even_def Let_def P_def[symmetric] Q_def[symmetric] m_def r_def)
    moreover have "real_of_int r / real_of_int Q < 1 / 2"
    proof -
      have "2 * real_of_int r < real_of_int Q" using lo by (metis of_int_less_iff of_int_mult of_int_numeral)
      then show ?thesis using Q by (simp add: field_simps)
    qed
    ultimately show ?thesis using x f unfolding P_def Q_def by simp
  next
    case hi
    then have "round_half_even PQ = m + 1"
      by (simp add: round_half_even_def Let_def P_def[symmetric] Q_def[symmetric] m_def r_def)
    moreover have "1 / 2 < real_of_int r / real_of_int Q"
    proof -
      have "real_of_int Q < 2 * real_of_int r" using hi by (metis of_int_less_iff of_int_mult of_int_numeral)
      then show ?thesis using Q by (simp add: field_simps)
    qed
    ultimately show ?thesis using x f unfolding P_def Q_def by simp
  next
    case tie
    then have "round_half_even PQ = m \<or> round_half_even PQ = m + 1"
      by (simp add: round_half_even_def Let_def P_def[symmetric] Q_def[symmetric] m_def r_def)
    moreover have "real_of_int r / real_of_int Q = 1 / 2"
    proof -
      have "2 * real_of_int r = real_of_int Q" using tie by (metis of_int_mult of_int_numeral)
      then show ?thesis using Q by (simp add: field_simps)
    qed
    ultimately show ?thesis using x unfolding P_def Q_def by auto
  qed
qed

text \<open>
  The exponent that \<open>binary_exponent\<close> picks leaves at least 53 bits before the point, so
  rounding a positive fraction to a double moves it by at most \<open>2^-53\<close> of itself.
\<close>

lemma of_int_div_le_real:
  "0 < b \<Longrightarrow> real_of_int (a div b) \<le> real_of_int a / real_of_int b"
  by (metis floor_divide_of_int_eq of_int_floor_le)

lemma binary_exponent_lower:
  assumes p: "0 < p" and q: "0 < q"
  shows "2 ^ 52 \<le> (real_of_int p / real_of_int q) / 2 powi (binary_exponent p q)"
proof -
  define lp where "lp = bitlen (nat p)"
  define lq where "lq = bitlen (nat q)"
  define e0 where "e0 = int lp - int lq - 53"
  define x where "x = real_of_int p / real_of_int q"
  have xpos: "0 < x" using p q by (simp add: x_def)
  from bitlen_bounds[of "nat p"] p have "2 ^ (lp - 1) \<le> nat p" by (simp add: lp_def)
  then have "real (2 ^ (lp - 1)) \<le> real (nat p)" by (rule iffD2[OF of_nat_le_iff])
  then have plo: "2 ^ (lp - 1) \<le> real_of_int p" using p by simp
  from bitlen_bounds[of "nat q"] q have "nat q < 2 ^ lq" by (simp add: lq_def)
  then have "real (nat q) < real (2 ^ lq)" by (rule iffD2[OF of_nat_less_iff])
  then have qhi: "real_of_int q < 2 ^ lq" using q by simp
  have lp1: "0 < lp" using bitlen_pos[of "nat p"] p by (simp add: lp_def)
  have "(2::real) ^ (lp - 1) / 2 ^ lq \<le> x"
  proof -
    have "(2::real) ^ (lp - 1) / 2 ^ lq \<le> real_of_int p / 2 ^ lq"
      using plo by (simp add: divide_right_mono)
    also have "\<dots> \<le> real_of_int p / real_of_int q"
      using qhi p q by (simp add: frac_le)
    finally show ?thesis by (simp add: x_def)
  qed
  moreover have "(2::real) ^ (lp - 1) / 2 ^ lq = 2 powi (int lp - 1 - int lq)"
  proof -
    have "(2::real) powi (int lp - 1 - int lq) = 2 powi (int (lp - 1)) / 2 powi (int lq)"
      using lp1 by (simp add: power_int_diff of_nat_diff)
    then show ?thesis by simp
  qed
  ultimately have "2 powi (int lp - 1 - int lq) \<le> x" by simp
  then have "2 powi (int lp - 1 - int lq) / 2 powi e0 \<le> x / 2 powi e0"
    by (simp add: divide_right_mono)
  moreover have "(2::real) powi (int lp - 1 - int lq) / 2 powi e0 = 2 powi 52"
    unfolding e0_def by (simp add: power_int_diff[symmetric])
  ultimately have lo0: "2 ^ 52 \<le> x / 2 powi e0" by simp
  show ?thesis
  proof (cases "fst (scale p q e0) div snd (scale p q e0) < 2 ^ 53")
    case True
    then have "binary_exponent p q = e0"
      by (simp add: binary_exponent_def Let_def e0_def lp_def lq_def)
    with lo0 show ?thesis by (simp add: x_def)
  next
    case False
    then have e: "binary_exponent p q = e0 + 1"
      by (simp add: binary_exponent_def Let_def e0_def lp_def lq_def)
    from False have "2 ^ 53 \<le> fst (scale p q e0) div snd (scale p q e0)" by simp
    then have "real_of_int (2 ^ 53) \<le> real_of_int (fst (scale p q e0) div snd (scale p q e0))"
      by (rule iffD2[OF of_int_le_iff])
    also have "\<dots> \<le> real_of_int (fst (scale p q e0)) / real_of_int (snd (scale p q e0))"
      by (rule of_int_div_le_real[OF scale_pos[OF q]])
    also have "\<dots> = x / 2 powi e0" by (simp add: scale_val[OF q] x_def)
    finally have "2 ^ 53 \<le> x / 2 powi e0" by simp
    then have A: "2 ^ 52 \<le> (x / 2 powi e0) / 2" by simp
    have h: "(2::real) powi (e0 + 1) = 2 powi e0 * 2" by (simp add: power_int_add)
    have B: "x / 2 powi (e0 + 1) = (x / 2 powi e0) / 2" unfolding h by simp
    show ?thesis unfolding e x_def[symmetric] B by (rule A)
  qed
qed


lemma round_to_double_error:
  assumes p: "0 < p" and q: "0 < q"
  obtains m e where "round_to_double p q = Dyadic m e" and "0 < m"
    and "\<bar>val (Dyadic m e) - real_of_int p / real_of_int q\<bar> \<le> (real_of_int p / real_of_int q) / 2 ^ 53"
proof -
  define e where "e = binary_exponent p q"
  define m where "m = round_half_even (scale p q e)"
  define x where "x = real_of_int p / real_of_int q"
  define y where "y = real_of_int (fst (scale p q e)) / real_of_int (snd (scale p q e))"
  define t where "t = (2::real) powi e"
  have xpos: "0 < x" using p q by (simp add: x_def)
  have tpos: "0 < t" by (simp add: t_def)
  have y: "y = x / t" using scale_val[OF q, of p e] by (simp add: y_def x_def t_def)
  have ylo: "2 ^ 52 \<le> y" using binary_exponent_lower[OF p q] by (simp add: y x_def t_def e_def)
  have near: "\<bar>real_of_int m - y\<bar> \<le> 1 / 2"
    using round_half_even_near[OF scale_pos[OF q, of p e]] by (simp add: m_def y_def)
  have r: "round_to_double p q = Dyadic m e" by (simp add: round_to_double_def m_def e_def)
  have "(1::real) \<le> 2 ^ 52" by simp
  then have "0 < real_of_int m" using near ylo by linarith
  then have mpos: "0 < m" by simp
  have xy: "x = y * t" using y tpos by simp
  have "\<bar>val (Dyadic m e) - x\<bar> = \<bar>real_of_int m - y\<bar> * t"
    using tpos by (simp add: xy t_def[symmetric] left_diff_distrib[symmetric] abs_mult)
  also have "\<dots> \<le> (1 / 2) * t" using near tpos by (simp add: mult_right_mono)
  also have "\<dots> \<le> x / 2 ^ 53"
  proof -
    have "t * 2 ^ 52 \<le> t * y" using ylo tpos by (simp add: mult_left_mono)
    then have "t * 2 ^ 52 \<le> x" using xy by (simp add: mult.commute)
    then show ?thesis by simp
  qed
  finally have "\<bar>val (Dyadic m e) - x\<bar> \<le> x / 2 ^ 53" .
  with r mpos show ?thesis using that by (simp add: x_def)
qed

text \<open>\<open>Math_round\<close> is the floor of the value plus one half.\<close>

lemma Math_round_val:
  "Math_round (Dyadic m e) = Dyadic \<lfloor>val (Dyadic m e) + 1 / 2\<rfloor> 0"
proof (cases "0 \<le> e")
  case True
  then have "(2::real) powi e = 2 ^ nat e" by (simp add: power_int_def)
  then have "val (Dyadic m e) = real_of_int (m * 2 ^ nat e)" by simp
  then have "\<lfloor>val (Dyadic m e) + 1 / 2\<rfloor> = m * 2 ^ nat e" by linarith
  with True show ?thesis by simp
next
  case False
  define k where "k = nat (- e)"
  have pw: "(2::real) powi e = 1 / 2 ^ k"
    using False by (simp add: power_int_def power_one_over k_def)
  have k1: "nat (1 - e) = Suc k" using False by (simp add: k_def)
  have "val (Dyadic m e) + 1 / 2 = real_of_int (2 * m + 2 ^ k) / real_of_int (2 ^ Suc k)"
    by (simp add: pw field_simps)
  then have "\<lfloor>val (Dyadic m e) + 1 / 2\<rfloor> = (2 * m + 2 ^ k) div 2 ^ Suc k"
    by (simp only: floor_divide_of_int_eq)
  with False k1 show ?thesis by (simp add: k_def)
qed

text \<open>
  A number that is within \<open>1/(2n)\<close> of the fraction \<open>100 c / n\<close> rounds to an integer
  within one half of that fraction: the distance of an integer from the fraction is a
  multiple of \<open>1/n\<close>, so it cannot lie strictly between \<open>1/2\<close> and \<open>1/2 + 1/(2n)\<close>.
\<close>

lemma nearest_from_close:
  fixes k :: int and c n :: nat and z :: real
  assumes n: "0 < n"
    and k: "k = \<lfloor>z + 1 / 2\<rfloor>"
    and close: "\<bar>z - 100 * real c / real n\<bar> < 1 / (2 * real n)"
  shows "\<bar>real_of_int k - 100 * real c / real n\<bar> \<le> 1 / 2"
proof -
  define t where "t = 100 * real c / real n"
  define D where "D = 2 * k * int n - 200 * int c"
  have npos: "0 < real n" using n by simp
  have D: "real_of_int D = 2 * real n * (real_of_int k - t)"
    using npos by (simp add: D_def t_def field_simps)
  have k1: "real_of_int k \<le> z + 1 / 2" and k2: "z + 1 / 2 < real_of_int k + 1"
    unfolding k by linarith+
  have c1: "z - t < 1 / (2 * real n)" and c2: "t - z < 1 / (2 * real n)"
    using close unfolding t_def by linarith+
  have half: "1 / (2 * real n) + 1 / 2 = (real n + 1) / (2 * real n)"
    using npos by (simp add: field_simps)
  have up: "real_of_int k - t \<le> 1 / 2"
  proof (rule ccontr)
    assume "\<not> real_of_int k - t \<le> 1 / 2"
    then have "1 / 2 < real_of_int k - t" by simp
    then have "2 * real n * (1 / 2) < 2 * real n * (real_of_int k - t)"
      using npos by (simp add: mult_less_cancel_left_pos del: times_divide_eq_right)
    then have "real n < real_of_int D" using D by simp
    then have "int n < D" by linarith
    then have "int n + 1 \<le> D" by simp
    then have "real n + 1 \<le> real_of_int D" by linarith
    then have "real n + 1 \<le> 2 * real n * (real_of_int k - t)" using D by simp
    then have "(real n + 1) / (2 * real n) \<le> real_of_int k - t"
      using npos by (simp add: field_simps)
    with half have "1 / (2 * real n) + 1 / 2 \<le> real_of_int k - t" by simp
    with k1 c1 show False by linarith
  qed
  have lo: "t - real_of_int k \<le> 1 / 2"
  proof (rule ccontr)
    assume "\<not> t - real_of_int k \<le> 1 / 2"
    then have "1 / 2 < t - real_of_int k" by simp
    then have "2 * real n * (1 / 2) < 2 * real n * (t - real_of_int k)"
      using npos by (simp add: mult_less_cancel_left_pos del: times_divide_eq_right)
    then have "real n < - real_of_int D" using D by (simp add: algebra_simps)
    then have "int n < - D" by linarith
    then have "int n + 1 \<le> - D" by simp
    then have "real n + 1 \<le> - real_of_int D" by linarith
    then have "real n + 1 \<le> 2 * real n * (t - real_of_int k)" using D by (simp add: algebra_simps)
    then have "(real n + 1) / (2 * real n) \<le> t - real_of_int k"
      using npos by (simp add: field_simps)
    with half have "1 / (2 * real n) + 1 / 2 \<le> t - real_of_int k" by simp
    with k2 c2 show False by linarith
  qed
  from up lo show ?thesis unfolding t_def by linarith
qed


text \<open>
  The two roundings of the score move it by less than \<open>300 * 2^-53\<close> of the quotient,
  which for a count below \<open>2^32\<close> is less than \<open>1/(2n)\<close>.
\<close>

lemma score_arith_nearest:
  assumes n: "0 < n" and c: "c < 2 ^ 32"
  shows "\<exists>k. Math_round (js_mul (js_div (of_length c) (of_length n)) (Dyadic 100 0)) = Dyadic k 0
           \<and> \<bar>real_of_int k - 100 * real c / real n\<bar> \<le> 1 / 2"
proof (cases "c = 0")
  case True
  with n have "Math_round (js_mul (js_div (of_length c) (of_length n)) (Dyadic 100 0)) = Dyadic 0 0"
    by (simp add: of_length_def)
  with True show ?thesis by simp
next
  case False
  then have cpos: "0 < int c" and npos: "0 < int n" using n by simp_all
  define u where "u = real c / real n"
  have upos: "0 < u" using False n by (simp add: u_def)
  have rn: "0 < real n" using n by simp
  from round_to_double_error[OF cpos npos] obtain m1 e1 where
    d1: "round_to_double (int c) (int n) = Dyadic m1 e1" and m1: "0 < m1"
    and err1raw: "\<bar>val (Dyadic m1 e1) - real_of_int (int c) / real_of_int (int n)\<bar>
                    \<le> (real_of_int (int c) / real_of_int (int n)) / 2 ^ 53"
    by blast
  have uu: "real_of_int (int c) / real_of_int (int n) = u" by (simp add: u_def)
  have err1: "\<bar>val (Dyadic m1 e1) - u\<bar> \<le> u / 2 ^ 53"
    using err1raw unfolding uu .
  define x1 where "x1 = val (Dyadic m1 e1)"
  have div: "js_div (of_length c) (of_length n) = Dyadic m1 e1"
    using False n d1 by (simp add: of_length_def)
  define P where "P = fst (scale (m1 * 100) 1 (- (e1 + 0)))"
  define Q where "Q = snd (scale (m1 * 100) 1 (- (e1 + 0)))"
  have Ppos: "0 < P" unfolding P_def using m1 by (intro scale_pos_fst) simp
  have Qpos: "0 < Q" unfolding Q_def by (intro scale_pos) simp
  have PQ: "real_of_int P / real_of_int Q = 100 * x1"
  proof -
    have "real_of_int P / real_of_int Q = (real_of_int (m1 * 100) / real_of_int 1) / 2 powi (- (e1 + 0))"
      unfolding P_def Q_def by (rule scale_val) simp
    also have "\<dots> = 100 * (real_of_int m1 * 2 powi e1)"
      by (simp add: power_int_minus field_simps)
    finally show ?thesis by (simp add: x1_def)
  qed
  from round_to_double_error[OF Ppos Qpos] obtain m2 e2 where
    d2: "round_to_double P Q = Dyadic m2 e2"
    and err2raw: "\<bar>val (Dyadic m2 e2) - real_of_int P / real_of_int Q\<bar>
                    \<le> (real_of_int P / real_of_int Q) / 2 ^ 53"
    by blast
  have err2: "\<bar>val (Dyadic m2 e2) - 100 * x1\<bar> \<le> (100 * x1) / 2 ^ 53"
    using err2raw unfolding PQ .
  define x2 where "x2 = val (Dyadic m2 e2)"
  have mul: "js_mul (Dyadic m1 e1) (Dyadic 100 0) = Dyadic m2 e2"
    using m1 d2 by (simp add: P_def Q_def)
  define k where "k = \<lfloor>x2 + 1 / 2\<rfloor>"
  have rnd: "Math_round (Dyadic m2 e2) = Dyadic k 0"
    by (simp only: Math_round_val k_def x2_def)
  define w where "w = u / 2 ^ 53"
  have wu: "w \<le> u" using upos by (simp add: w_def field_simps)
  have a1: "\<bar>x1 - u\<bar> \<le> w" using err1 by (simp add: x1_def w_def)
  have a2: "\<bar>x2 - 100 * x1\<bar> \<le> 100 * (x1 / 2 ^ 53)" using err2 by (simp add: x2_def)
  have x1hi: "x1 \<le> 2 * u" using a1 wu by linarith
  then have "x1 / 2 ^ 53 \<le> (2 * u) / 2 ^ 53" by (rule divide_right_mono) simp
  then have a3: "x1 / 2 ^ 53 \<le> 2 * w" by (simp add: w_def)
  have "\<bar>x2 - 100 * u\<bar> \<le> 300 * w" using a1 a2 a3 by linarith
  then have tot: "\<bar>x2 - 100 * u\<bar> \<le> 300 * u / 2 ^ 53" by (simp add: w_def)
  have small: "300 * u / 2 ^ 53 < 1 / (2 * real n)"
  proof -
    have "real c < 2 ^ 32" using c by (metis of_nat_less_iff of_nat_numeral of_nat_power)
    then have "600 * real c < 2 ^ 53" by simp
    then have "600 * real c / 2 ^ 53 < 1" by simp
    then have "(600 * real c / 2 ^ 53) / (2 * real n) < 1 / (2 * real n)"
      using rn by (simp add: divide_strict_right_mono del: divide_divide_eq_left)
    moreover have "300 * u / 2 ^ 53 = (600 * real c / 2 ^ 53) / (2 * real n)"
      using rn by (simp add: u_def field_simps)
    ultimately show ?thesis by simp
  qed
  have close: "\<bar>x2 - 100 * real c / real n\<bar> < 1 / (2 * real n)"
    using tot small by (simp add: u_def)
  have "\<bar>real_of_int k - 100 * real c / real n\<bar> \<le> 1 / 2"
    using nearest_from_close[OF n k_def close] .
  moreover have "Math_round (js_mul (js_div (of_length c) (of_length n)) (Dyadic 100 0)) = Dyadic k 0"
    by (simp only: div mul rnd)
  ultimately show ?thesis by blast
qed

section \<open>The score\<close>

text \<open>The arithmetic of the score on two inputs: 1 of 2 and 23 of 40.\<close>

lemma bitlen_values:
  "bitlen (Suc 0) = 1" "bitlen 2 = 2" "bitlen 23 = 5" "bitlen 40 = 6"
  by (simp_all add: bitlen.simps)

lemma half_div: "js_div (of_length 1) (of_length 2) = Dyadic 4503599627370496 (- 53)"
proof -
  have e: "binary_exponent 1 2 = - 53"
    by (simp add: binary_exponent_def scale_def Let_def bitlen_values)
  show ?thesis
    by (simp add: of_length_def round_to_double_def e scale_def round_half_even_def Let_def)
qed

lemma half_mul: "js_mul (Dyadic 4503599627370496 (- 53)) (Dyadic 100 0) = Dyadic 7036874417766400 (- 47)"
proof -
  have s: "scale (4503599627370496 * 100) 1 (- (- 53 + 0)) = (450359962737049600, 9007199254740992)"
    by (simp add: scale_def)
  have e: "binary_exponent 450359962737049600 9007199254740992 = - 47"
    by (simp add: binary_exponent_def scale_def Let_def bitlen.simps)
  have r: "round_to_double 450359962737049600 9007199254740992 = Dyadic 7036874417766400 (- 47)"
    by (simp add: round_to_double_def e scale_def round_half_even_def Let_def)
  show ?thesis using s r by simp
qed

lemma half_round: "Math_round (Dyadic 7036874417766400 (- 47)) = Dyadic 50 0"
  by simp

lemma example_score: "quiz_score [answer_one, answer_two_timeout] (questions example_app) = Dyadic 50 0"
proof -
  have "length (filter isCorrect [answer_one, answer_two_timeout]) = 1"
    by (simp add: answer_one_def answer_two_timeout_def)
  moreover have "length (questions example_app) = 2" by (simp add: example_app_def)
  ultimately show ?thesis
    by (simp only: quiz_score_def half_div half_mul half_round)
qed

lemma forty_lengths:
  "length forty_questions = 40" "length (filter isCorrect forty_answers) = 23"
  "length forty_answers = 40"
  by (simp_all add: forty_questions_def forty_answers_def answer_one_def answer_wrong_def
      filter_map o_def)

lemma ratio_div: "js_div (of_length 23) (of_length 40) = Dyadic 5179139571476070 (- 53)"
proof -
  have e: "binary_exponent 23 40 = - 53"
    by (simp add: binary_exponent_def scale_def Let_def bitlen_values)
  show ?thesis
    by (simp add: of_length_def round_to_double_def e scale_def round_half_even_def Let_def)
qed

lemma ratio_mul: "js_mul (Dyadic 5179139571476070 (- 53)) (Dyadic 100 0) = Dyadic 8092405580431359 (- 47)"
proof -
  have s: "scale (5179139571476070 * 100) 1 (- (- 53 + 0)) = (517913957147607000, 9007199254740992)"
    by (simp add: scale_def)
  have e: "binary_exponent 517913957147607000 9007199254740992 = - 47"
    by (simp add: binary_exponent_def scale_def Let_def bitlen.simps)
  have r: "round_to_double 517913957147607000 9007199254740992 = Dyadic 8092405580431359 (- 47)"
    by (simp add: round_to_double_def e scale_def round_half_even_def Let_def)
  show ?thesis using s r by simp
qed

lemma ratio_round: "Math_round (Dyadic 8092405580431359 (- 47)) = Dyadic 57 0"
  by simp

text \<open>
  Claim C5, amended: for a completed quiz over a non-empty list of questions (array
  lengths are below \<open>2^32\<close>), the record that \<open>handleQuizComplete\<close> puts in front of
  the history has as its score an integer within one half of
  \<open>100 * correctCount / totalQuestions\<close>, that is, an integer nearest to it. Which of the
  two nearest integers it is when the exact value lies half-way is decided by the double
  arithmetic and is not always the upper one.
\<close>

theorem score_is_a_nearest_integer:
  assumes "questions app \<noteq> []"
    and "length as < 2 ^ 32" and "length (questions app) < 2 ^ 32"
  shows "\<exists>k. savedQuizzes (handleQuizComplete now d as app) =
              \<lparr>id_s = now, topic = currentTopic app, date = d, score = Dyadic k 0,
               totalQuestions = length (questions app),
               questions_s = questions app, answers_s = as\<rparr> # savedQuizzes app
           \<and> \<bar>real_of_int k
                - 100 * real (length (filter isCorrect as)) / real (length (questions app))\<bar>
               \<le> 1 / 2"
proof -
  have n: "0 < length (questions app)" using assms(1) by simp
  have "length (filter isCorrect as) \<le> length as" by simp
  with assms(2) have c: "length (filter isCorrect as) < 2 ^ 32" by linarith
  from score_arith_nearest[OF n c] obtain k where
    "quiz_score as (questions app) = Dyadic k 0"
    and "\<bar>real_of_int k - 100 * real (length (filter isCorrect as)) / real (length (questions app))\<bar> \<le> 1 / 2"
    unfolding quiz_score_def by blast
  then show ?thesis by (auto simp: handleQuizComplete_def)
qed

text \<open>Claim C5, an instance: the example session, one correct answer of two, scores 50.\<close>

theorem score_is_a_nearest_integer_witness:
  "questions example_app \<noteq> []
   \<and> length [answer_one, answer_two_timeout] < 2 ^ 32
   \<and> length (questions example_app) < 2 ^ 32
   \<and> map score (savedQuizzes (handleQuizComplete (js ''1700000003000'') (js ''2023-11-14T22:13:23.000Z'')
         [answer_one, answer_two_timeout] example_app)) = [Dyadic 50 0]
   \<and> \<bar>real_of_int 50
        - 100 * real (length (filter isCorrect [answer_one, answer_two_timeout]))
            / real (length (questions example_app))\<bar> \<le> 1 / 2"
proof -
  have h: "questions example_app \<noteq> []" "length [answer_one, answer_two_timeout] < 2 ^ 32"
    "length (questions example_app) < 2 ^ 32"
    by (simp_all add: example_app_def)
  have s: "map score (savedQuizzes (handleQuizComplete (js ''1700000003000'') (js ''2023-11-14T22:13:23.000Z'')
         [answer_one, answer_two_timeout] example_app)) = [Dyadic 50 0]"
    using example_score by (simp add: handleQuizComplete_def) (simp add: example_app_def)
  from score_is_a_nearest_integer[OF h, of "js ''1700000003000''" "js ''2023-11-14T22:13:23.000Z''"]
  obtain k where
    r: "savedQuizzes (handleQuizComplete (js ''1700000003000'') (js ''2023-11-14T22:13:23.000Z'')
          [answer_one, answer_two_timeout] example_app) =
        \<lparr>id_s = js ''1700000003000'', topic = currentTopic example_app,
         date = js ''2023-11-14T22:13:23.000Z'', score = Dyadic k 0,
         totalQuestions = length (questions example_app),
         questions_s = questions example_app,
         answers_s = [answer_one, answer_two_timeout]\<rparr> # savedQuizzes example_app"
    and b: "\<bar>real_of_int k
        - 100 * real (length (filter isCorrect [answer_one, answer_two_timeout]))
            / real (length (questions example_app))\<bar> \<le> 1 / 2"
    by blast
  from s have "k = 50" unfolding r by simp
  with b have "\<bar>real_of_int 50
        - 100 * real (length (filter isCorrect [answer_one, answer_two_timeout]))
            / real (length (questions example_app))\<bar> \<le> 1 / 2" by simp
  with h s show ?thesis by blast
qed

text \<open>
  Claim C5 as stated, with the score equal to the exact value rounded half-up, fails for
  23 correct answers of 40: the exact value is 57.5, which rounds to 58 (half-up, and
  half-to-even and half-away-from-zero as well), but the quotient 23/40 is not a double,
  its double times 100 is the double just below 57.5, and \<open>Math.round\<close> of that is 57.
\<close>

theorem score_of_23_in_40_is_57:
  "length forty_questions = 40
   \<and> length forty_answers = 40
   \<and> length (filter isCorrect forty_answers) = 23
   \<and> quiz_score forty_answers forty_questions = Dyadic 57 0
   \<and> map score (savedQuizzes (handleQuizComplete (js ''1700000003000'') (js ''2023-11-14T22:13:23.000Z'')
         forty_answers (example_app\<lparr>questions := forty_questions\<rparr>))) = [Dyadic 57 0]
   \<and> round (100 * 23 / 40 :: real) = 58"
proof -
  have q: "quiz_score forty_answers forty_questions = Dyadic 57 0"
    by (simp only: quiz_score_def forty_lengths ratio_div ratio_mul ratio_round)
  have r: "round (100 * 23 / 40 :: real) = 58" by (simp add: round_def)
  have s: "map score (savedQuizzes (handleQuizComplete (js ''1700000003000'') (js ''2023-11-14T22:13:23.000Z'')
         forty_answers (example_app\<lparr>questions := forty_questions\<rparr>))) = [Dyadic 57 0]"
    using q by (simp add: handleQuizComplete_def) (simp add: example_app_def)
  from forty_lengths q r s show ?thesis by blast
qed

end
